theory Spec2Isabelle
  imports Main
begin

section \<open>JavaScript strings\<close>

text \<open>
  A JavaScript string is a sequence of UTF-16 code units. A code unit is modelled by its
  number (an integer from 0 to 65535; nothing below depends on the bound); \<open>js\<close> turns
  an Isabelle literal into the string of the same ASCII characters.
\<close>

type_synonym code_unit = int
type_synonym js_string = "code_unit list"

definition js :: "string \<Rightarrow> js_string" where
  "js s = map of_char s"

text \<open>The class \<^verbatim>\<open>\w\<close> of a regular expression without flags: \<^verbatim>\<open>[A-Za-z0-9_]\<close>.\<close>

definition is_word :: "code_unit \<Rightarrow> bool" where
  "is_word c \<longleftrightarrow> (48 \<le> c \<and> c \<le> 57) \<or> (65 \<le> c \<and> c \<le> 90) \<or> c = 95 \<or> (97 \<le> c \<and> c \<le> 122)"

text \<open>
  The class \<^verbatim>\<open>\s\<close>, which is also what \<^verbatim>\<open>String.prototype.trim\<close> removes: the
  ECMAScript WhiteSpace and LineTerminator code points (TAB, LF, VT, FF, CR, SP, NBSP,
  U+1680, U+2000 to U+200A, U+2028, U+2029, U+202F, U+205F, U+3000, U+FEFF).
\<close>

definition is_space :: "code_unit \<Rightarrow> bool" where
  "is_space c \<longleftrightarrow> (9 \<le> c \<and> c \<le> 13) \<or> c = 32 \<or> c = 160 \<or> c = 5760 \<or>
     (8192 \<le> c \<and> c \<le> 8202) \<or> c = 8232 \<or> c = 8233 \<or> c = 8239 \<or> c = 8287 \<or>
     c = 12288 \<or> c = 65279"

definition trim :: "js_string \<Rightarrow> js_string" where
  "trim s = rev (dropWhile is_space (rev (dropWhile is_space s)))"

definition ascii_lower :: "code_unit \<Rightarrow> code_unit" where
  "ascii_lower c = (if 65 \<le> c \<and> c \<le> 90 then c + 32 else c)"

text \<open>
  \<^verbatim>\<open>String.prototype.toLowerCase\<close>. On a string of ASCII code units it maps A-Z to a-z
  and changes nothing else. The Unicode case mapping of any other string is a table of
  the runtime, not of the repository: it is the parameter \<open>ul\<close>. No lower-cased string
  holds an ASCII capital, which the model keeps by lowering the table's result too.
\<close>

definition toLowerCase :: "(js_string \<Rightarrow> js_string) \<Rightarrow> js_string \<Rightarrow> js_string" where
  "toLowerCase ul s = map ascii_lower (if list_all (\<lambda>c. c < 128) s then s else ul s)"

section \<open>Event: the slug of a title\<close>

text \<open>\<^verbatim>\<open>.replace(/[^\w\s-]/g, "")\<close>: every code unit outside the three classes goes.\<close>

definition slug_keeps :: "code_unit \<Rightarrow> bool" where
  "slug_keeps c \<longleftrightarrow> is_word c \<or> is_space c \<or> c = 45"

definition remove_special :: "js_string \<Rightarrow> js_string" where
  "remove_special s = filter slug_keeps s"

text \<open>
  \<^verbatim>\<open>.replace(/[\s_-]+/g, "-")\<close>: scanning from the left, each maximal run of
  whitespace, underscore and hyphen becomes one hyphen.
\<close>

definition is_separator :: "code_unit \<Rightarrow> bool" where
  "is_separator c \<longleftrightarrow> is_space c \<or> c = 95 \<or> c = 45"

function hyphenate :: "js_string \<Rightarrow> js_string" where
  "hyphenate [] = []"
| "hyphenate (c # cs) =
     (if is_separator c then 45 # hyphenate (dropWhile is_separator cs)
      else c # hyphenate cs)"
  by pat_completeness auto
termination
  by (relation "measure length") (auto simp: less_Suc_eq_le length_dropWhile_le)

text \<open>
  \<^verbatim>\<open>.replace(/^-+|-+$/g, "")\<close>: without the \<^verbatim>\<open>m\<close> flag the anchors are the two ends
  of the string, so the hyphens at the start and the hyphens at the end go.
\<close>

definition strip_hyphens :: "js_string \<Rightarrow> js_string" where
  "strip_hyphens s = rev (dropWhile (\<lambda>c. c = 45) (rev (dropWhile (\<lambda>c. c = 45) s)))"

text \<open>The expression assigned to \<^verbatim>\<open>this.slug\<close> in the pre-save hook.\<close>

definition slug_of_title :: "(js_string \<Rightarrow> js_string) \<Rightarrow> js_string \<Rightarrow> js_string" where
  "slug_of_title ul title =
     strip_hyphens (hyphenate (remove_special (trim (toLowerCase ul title))))"

text \<open>
  The same derivation in the words of the specification: lower-case the title, strip
  the characters outside word characters, whitespace and hyphen, collapse the runs of
  whitespace, underscore and hyphen into one hyphen, trim the hyphens at both ends.
\<close>

definition slug_spec :: "(js_string \<Rightarrow> js_string) \<Rightarrow> js_string \<Rightarrow> js_string" where
  "slug_spec ul title = strip_hyphens (hyphenate (remove_special (toLowerCase ul title)))"

section \<open>Regular expressions under \<^verbatim>\<open>test\<close>\<close>

text \<open>
  The two patterns passed to \<^verbatim>\<open>RegExp.prototype.test\<close> are anchored at both ends and
  have neither groups that are read back nor look-around, so \<^verbatim>\<open>test\<close> decides whether
  the whole string belongs to the language of the pattern. The matcher takes the
  derivative of the pattern by each code unit in turn.
\<close>

datatype cls_item = Chr code_unit | Rng code_unit code_unit | Space

datatype regex =
    Nothing
  | Empty
  | Class "cls_item list"
  | NotClass "cls_item list"
  | Seq regex regex
  | Alt regex regex
  | Opt regex
  | Star regex
  | Plus regex

fun in_item :: "code_unit \<Rightarrow> cls_item \<Rightarrow> bool" where
  "in_item c (Chr d) = (c = d)"
| "in_item c (Rng lo hi) = (lo \<le> c \<and> c \<le> hi)"
| "in_item c Space = is_space c"

fun nullable :: "regex \<Rightarrow> bool" where
  "nullable Nothing = False"
| "nullable Empty = True"
| "nullable (Class _) = False"
| "nullable (NotClass _) = False"
| "nullable (Seq r s) = (nullable r \<and> nullable s)"
| "nullable (Alt r s) = (nullable r \<or> nullable s)"
| "nullable (Opt r) = True"
| "nullable (Star r) = True"
| "nullable (Plus r) = nullable r"

fun deriv :: "code_unit \<Rightarrow> regex \<Rightarrow> regex" where
  "deriv c Nothing = Nothing"
| "deriv c Empty = Nothing"
| "deriv c (Class is) = (if list_ex (in_item c) is then Empty else Nothing)"
| "deriv c (NotClass is) = (if list_ex (in_item c) is then Nothing else Empty)"
| "deriv c (Seq r s) =
     (if nullable r then Alt (Seq (deriv c r) s) (deriv c s) else Seq (deriv c r) s)"
| "deriv c (Alt r s) = Alt (deriv c r) (deriv c s)"
| "deriv c (Opt r) = deriv c r"
| "deriv c (Star r) = Seq (deriv c r) (Star r)"
| "deriv c (Plus r) = Seq (deriv c r) (Star r)"

fun derivs :: "js_string \<Rightarrow> regex \<Rightarrow> regex" where
  "derivs [] r = r"
| "derivs (c # cs) r = derivs cs (deriv c r)"

definition regex_test :: "regex \<Rightarrow> js_string \<Rightarrow> bool" where
  "regex_test r s = nullable (derivs s r)"

definition cu :: "char \<Rightarrow> code_unit" where
  "cu c = of_char c"

section \<open>Event: the time of day\<close>

text \<open>\<^verbatim>\<open>/^([0-1]?[0-9]|2[0-3]):[0-5][0-9]$/\<close>\<close>

definition timeRegex :: regex where
  "timeRegex =
     Seq (Alt (Seq (Opt (Class [Rng (cu CHR ''0'') (cu CHR ''1'')]))
                   (Class [Rng (cu CHR ''0'') (cu CHR ''9'')]))
              (Seq (Class [Chr (cu CHR ''2'')]) (Class [Rng (cu CHR ''0'') (cu CHR ''3'')])))
         (Seq (Class [Chr (cu CHR '':'')])
              (Seq (Class [Rng (cu CHR ''0'') (cu CHR ''5'')])
                   (Class [Rng (cu CHR ''0'') (cu CHR ''9'')])))"

text \<open>
  The shapes a time of day can have. \<open>is_HH_MM\<close> is the shape of the specification:
  two digits of an hour up to 23, a colon, two digits of a minute up to 59.
  \<open>is_H_MM\<close> is the same with an hour of one digit.
\<close>

definition is_digit :: "code_unit \<Rightarrow> bool" where
  "is_digit c \<longleftrightarrow> 48 \<le> c \<and> c \<le> 57"

definition digit_val :: "code_unit \<Rightarrow> int" where
  "digit_val c = c - 48"

definition is_HH_MM :: "js_string \<Rightarrow> bool" where
  "is_HH_MM s =
     (case s of
        [h1, h2, c, m1, m2] \<Rightarrow>
          is_digit h1 \<and> is_digit h2 \<and> c = 58 \<and> is_digit m1 \<and> is_digit m2 \<and>
          10 * digit_val h1 + digit_val h2 \<le> 23 \<and> 10 * digit_val m1 + digit_val m2 \<le> 59
      | _ \<Rightarrow> False)"

definition is_H_MM :: "js_string \<Rightarrow> bool" where
  "is_H_MM s =
     (case s of
        [h, c, m1, m2] \<Rightarrow>
          is_digit h \<and> c = 58 \<and> is_digit m1 \<and> is_digit m2 \<and>
          10 * digit_val m1 + digit_val m2 \<le> 59
      | _ \<Rightarrow> False)"

section \<open>Event: the calendar date\<close>

text \<open>
  A \<^verbatim>\<open>Date\<close> holds a time value: the milliseconds since 1970-01-01T00:00:00Z, or NaN,
  which is \<open>None\<close> here. Days are counted from the same epoch, in the proleptic
  Gregorian calendar; months and days of the month start at 1.
\<close>

type_synonym time_value = int

definition msPerDay :: int where
  "msPerDay = 86400000"

definition is_leap :: "int \<Rightarrow> bool" where
  "is_leap y = (if y mod 100 = 0 then y mod 400 = 0 else y mod 4 = 0)"

definition days_in_month :: "int \<Rightarrow> int \<Rightarrow> int" where
  "days_in_month y m =
     (if m = 2 then (if is_leap y then 29 else 28)
      else if m = 4 \<or> m = 6 \<or> m = 9 \<or> m = 11 then 30 else 31)"

text \<open>The day number of a calendar date (MakeDay), with the year counted from March.\<close>

definition days_from_civil :: "int \<Rightarrow> int \<Rightarrow> int \<Rightarrow> int" where
  "days_from_civil y m d =
     (let y' = (if m \<le> 2 then y - 1 else y);
          era = y' div 400;
          yoe = y' - era * 400;
          doy = (153 * (if 2 < m then m - 3 else m + 9) + 2) div 5 + d - 1;
          doe = yoe * 365 + yoe div 4 - yoe div 100 + doy
      in era * 146097 + doe - 719468)"

text \<open>The calendar date of a day number (YearFromTime, MonthFromTime, DateFromTime).\<close>

definition civil_from_days :: "int \<Rightarrow> int \<times> int \<times> int" where
  "civil_from_days z =
     (let z' = z + 719468;
          era = z' div 146097;
          doe = z' - era * 146097;
          yoe = (doe - doe div 1460 + doe div 36524 - doe div 146096) div 365;
          doy = doe - (365 * yoe + yoe div 4 - yoe div 100);
          mp = (5 * doy + 2) div 153;
          d = doy - (153 * mp + 2) div 5 + 1;
          m = (if mp < 10 then mp + 3 else mp - 9);
          y = yoe + era * 400
      in (if m \<le> 2 then y + 1 else y, m, d))"

text \<open>TimeClip: a time value further than 8.64e15 ms from the epoch is NaN.\<close>

definition TimeClip :: "int \<Rightarrow> time_value option" where
  "TimeClip t = (if \<bar>t\<bar> \<le> 8640000000000000 then Some t else None)"

text \<open>The number written by a string of decimal digits; \<open>None\<close> for any other string.\<close>

definition number_of :: "js_string \<Rightarrow> int option" where
  "number_of s =
     (if s \<noteq> [] \<and> list_all is_digit s
      then Some (foldl (\<lambda>a c. 10 * a + digit_val c) 0 s) else None)"

text \<open>
  The month and day after the year, \<^verbatim>\<open>-MM-DD\<close>, of a date in the year \<open>y\<close>. A month
  or a day out of range is not a date of the format.
\<close>

definition month_day :: "int \<Rightarrow> js_string \<Rightarrow> time_value option" where
  "month_day y s =
     (case s of
        [h1, m1, m2, h2, d1, d2] \<Rightarrow>
          (case (number_of [m1, m2], number_of [d1, d2]) of
             (Some m, Some d) \<Rightarrow>
               if h1 = 45 \<and> h2 = 45 \<and> 1 \<le> m \<and> m \<le> 12 \<and> 1 \<le> d \<and> d \<le> days_in_month y m
               then TimeClip (days_from_civil y m d * msPerDay) else None
           | _ \<Rightarrow> None)
      | _ \<Rightarrow> None)"

text \<open>
  The date-only forms of the ECMAScript date-time string format that name a day:
  \<^verbatim>\<open>YYYY-MM-DD\<close>, and \<^verbatim>\<open>+YYYYYY-MM-DD\<close> or \<^verbatim>\<open>-YYYYYY-MM-DD\<close> with an expanded year
  (the year \<^verbatim>\<open>-000000\<close> is not allowed). Such a string is midnight UTC of that day.
\<close>

definition parse_date_only :: "js_string \<Rightarrow> time_value option" where
  "parse_date_only s =
     (if length s = 10 then
        (case number_of (take 4 s) of
           Some y \<Rightarrow> month_day y (drop 4 s)
         | None \<Rightarrow> None)
      else if length s = 13 \<and> (hd s = 43 \<or> hd s = 45) then
        (case number_of (take 6 (tl s)) of
           Some y \<Rightarrow>
             if hd s = 45 \<and> y = 0 then None
             else month_day (if hd s = 45 then - y else y) (drop 7 s)
         | None \<Rightarrow> None)
      else None)"

text \<open>
  \<^verbatim>\<open>new Date(string)\<close>. What the language fixes for a legal date-only string is
  \<open>parse_date_only\<close>. Every other string (the forms with a time of day, and the
  formats each engine accepts on its own) is read by the engine: the parameter \<open>other\<close>.
\<close>

definition Date_parse :: "(js_string \<Rightarrow> time_value option) \<Rightarrow> js_string \<Rightarrow> time_value option" where
  "Date_parse other s =
     (case parse_date_only s of
        Some t \<Rightarrow> Some t
      | None \<Rightarrow> (case other s of Some t \<Rightarrow> TimeClip t | None \<Rightarrow> None))"

text \<open>The decimal digit of \<open>n\<close> at position \<open>i\<close>, and numbers padded to a width.\<close>

definition digit_at :: "int \<Rightarrow> nat \<Rightarrow> code_unit" where
  "digit_at n i = 48 + (n div 10 ^ i) mod 10"

definition pad2 :: "int \<Rightarrow> js_string" where
  "pad2 n = [digit_at n 1, digit_at n 0]"

definition pad3 :: "int \<Rightarrow> js_string" where
  "pad3 n = [digit_at n 2, digit_at n 1, digit_at n 0]"

definition pad4 :: "int \<Rightarrow> js_string" where
  "pad4 n = [digit_at n 3, digit_at n 2, digit_at n 1, digit_at n 0]"

definition pad6 :: "int \<Rightarrow> js_string" where
  "pad6 n = [digit_at n 5, digit_at n 4, digit_at n 3, digit_at n 2, digit_at n 1, digit_at n 0]"

text \<open>
  \<^verbatim>\<open>Date.prototype.toISOString\<close> of a time value that is not NaN:
  \<^verbatim>\<open>YYYY-MM-DDTHH:mm:ss.sssZ\<close> in UTC, where a year outside 0 to 9999 is written
  with a sign and six digits.
\<close>

definition iso_year :: "int \<Rightarrow> js_string" where
  "iso_year y =
     (if 0 \<le> y \<and> y \<le> 9999 then pad4 y
      else (if y < 0 then 45 else 43) # pad6 \<bar>y\<bar>)"

definition toISOString :: "time_value \<Rightarrow> js_string" where
  "toISOString t =
     (case civil_from_days (t div msPerDay) of
        (y, m, d) \<Rightarrow>
          (let ms = t mod msPerDay in
           iso_year y @ [45] @ pad2 m @ [45] @ pad2 d @ [84] @
           pad2 (ms div 3600000) @ [58] @ pad2 (ms div 60000 mod 60) @ [58] @
           pad2 (ms div 1000 mod 60) @ [46] @ pad3 (ms mod 1000) @ [90]))"

text \<open>\<^verbatim>\<open>.split("T")[0]\<close>: the part before the first \<^verbatim>\<open>T\<close>.\<close>

definition split_T_first :: "js_string \<Rightarrow> js_string" where
  "split_T_first s = takeWhile (\<lambda>c. c \<noteq> 84) s"

text \<open>The shape \<^verbatim>\<open>YYYY-MM-DD\<close>: four digits, two digits and two digits between hyphens.\<close>

definition is_YYYY_MM_DD :: "js_string \<Rightarrow> bool" where
  "is_YYYY_MM_DD s =
     (case s of
        [y1, y2, y3, y4, h1, m1, m2, h2, d1, d2] \<Rightarrow>
          list_all is_digit [y1, y2, y3, y4, m1, m2, d1, d2] \<and> h1 = 45 \<and> h2 = 45
      | _ \<Rightarrow> False)"

section \<open>Documents, errors and storage\<close>

type_synonym objectId = string

text \<open>
  What a storage operation rejects with when the storage fails: an \<^verbatim>\<open>Error\<close> (or an
  object of a subclass) with its message, or a thrown value that is not an \<^verbatim>\<open>Error\<close>.
\<close>

datatype fault = FaultError string | FaultOther

text \<open>
  What \<^verbatim>\<open>save\<close> rejects with: an \<^verbatim>\<open>Error\<close> made by a hook, with its message; a
  \<^verbatim>\<open>TypeError\<close> raised inside a hook; the validation error of the schema, with a
  message for each failing path; the duplicate-key error of a unique index, with the
  indexed path and the key; the fault of the storage.
\<close>

datatype js_error =
    Error string
  | TypeError string
  | ValidationError "(string \<times> string) list"
  | DuplicateKey string "js_string option"
  | StorageError fault

text \<open>
  A field that may be undefined is an option. \<open>modified\<close> holds the paths for which
  \<^verbatim>\<open>isModified\<close> is true: on a new document, the paths that were set.
\<close>

record event =
  event_id :: objectId
  title :: "js_string option"
  slug :: "js_string option"
  description :: "js_string option"
  overview :: "js_string option"
  image :: "js_string option"
  venue :: "js_string option"
  location :: "js_string option"
  date :: "js_string option"
  time :: "js_string option"
  mode :: "js_string option"
  audience :: "js_string option"
  agenda :: "js_string list"
  organizer :: "js_string option"
  tags :: "js_string list"
  modified :: "string list"

record booking =
  booking_id :: objectId
  eventId :: "objectId option"
  email :: "js_string option"
  booking_modified :: "string list"

record database =
  events :: "event list"
  bookings :: "booking list"
  fault :: "fault option"

text \<open>The two tables of the runtime that the repository does not hold.\<close>

record runtime =
  unicode_lower :: "js_string \<Rightarrow> js_string"
  date_other :: "js_string \<Rightarrow> time_value option"

section \<open>Event: schema, validation, pre-save hook\<close>

text \<open>
  The setters of the schema, run when a path is set: \<^verbatim>\<open>trim: true\<close> on every string
  path, and \<^verbatim>\<open>lowercase: true\<close> as well on the slug of an event and on the email of
  a booking. The setters of a path run from the last declared to the first: the slug is
  trimmed and then lower-cased, the email lower-cased and then trimmed.
\<close>

definition set_trim :: "js_string option \<Rightarrow> js_string option" where
  "set_trim v = map_option trim v"

definition set_slug :: "runtime \<Rightarrow> js_string option \<Rightarrow> js_string option" where
  "set_slug rt v = map_option (\<lambda>s. toLowerCase (unicode_lower rt) (trim s)) v"

definition set_email :: "runtime \<Rightarrow> js_string option \<Rightarrow> js_string option" where
  "set_email rt v = map_option (\<lambda>s. trim (toLowerCase (unicode_lower rt) s)) v"

text \<open>
  \<^verbatim>\<open>new Event(fields)\<close>: each field goes through the setters of its path, and the
  string paths that were given a value count as modified.
\<close>

definition paths_set :: "event \<Rightarrow> string list" where
  "paths_set f =
     map fst (filter (\<lambda>(p, v). v \<noteq> None)
       [(''title'', title f), (''slug'', slug f), (''description'', description f),
        (''overview'', overview f), (''image'', image f), (''venue'', venue f),
        (''location'', location f), (''date'', date f), (''time'', time f),
        (''mode'', mode f), (''audience'', audience f), (''organizer'', organizer f)])"

definition Event_new :: "runtime \<Rightarrow> event \<Rightarrow> event" where
  "Event_new rt f =
     f\<lparr> title := set_trim (title f), slug := set_slug rt (slug f),
        description := set_trim (description f), overview := set_trim (overview f),
        image := set_trim (image f), venue := set_trim (venue f),
        location := set_trim (location f), date := set_trim (date f),
        time := set_trim (time f), mode := set_trim (mode f),
        audience := set_trim (audience f), organizer := set_trim (organizer f),
        modified := paths_set f \<rparr>"

text \<open>
  The validators of the schema. \<^verbatim>\<open>required\<close> on a string path fails for undefined
  and for the empty string; the \<^verbatim>\<open>enum\<close> and the custom validators run on a value
  that is there. The first failing validator of a path gives its message.
\<close>

definition required_string :: "string \<Rightarrow> string \<Rightarrow> js_string option \<Rightarrow> (string \<times> string) list" where
  "required_string p msg v =
     (case v of None \<Rightarrow> [(p, msg)] | Some s \<Rightarrow> if s = [] then [(p, msg)] else [])"

definition mode_values :: "js_string list" where
  "mode_values = [js ''online'', js ''offline'', js ''hybrid'']"

definition validate_mode :: "js_string option \<Rightarrow> (string \<times> string) list" where
  "validate_mode v =
     (case v of
        None \<Rightarrow> [(''mode'', ''Event mode is required'')]
      | Some s \<Rightarrow>
          if s = [] then [(''mode'', ''Event mode is required'')]
          else if s \<in> set mode_values then []
          else [(''mode'', ''Mode must be either online, offline, or hybrid'')])"

definition validate_list :: "string \<Rightarrow> string \<Rightarrow> js_string list \<Rightarrow> (string \<times> string) list" where
  "validate_list p msg v = (if 0 < length v then [] else [(p, msg)])"

definition EventSchema_validate :: "event \<Rightarrow> (string \<times> string) list" where
  "EventSchema_validate doc =
     required_string ''title'' ''Event title is required'' (title doc) @
     required_string ''description'' ''Event description is required'' (description doc) @
     required_string ''overview'' ''Event overview is required'' (overview doc) @
     required_string ''image'' ''Event image is required'' (image doc) @
     required_string ''venue'' ''Event venue is required'' (venue doc) @
     required_string ''location'' ''Event location is required'' (location doc) @
     required_string ''date'' ''Event date is required'' (date doc) @
     required_string ''time'' ''Event time is required'' (time doc) @
     validate_mode (mode doc) @
     required_string ''audience'' ''Target audience is required'' (audience doc) @
     validate_list ''agenda'' ''Agenda must contain at least one item'' (agenda doc) @
     required_string ''organizer'' ''Event organizer is required'' (organizer doc) @
     validate_list ''tags'' ''At least one tag is required'' (tags doc)"

definition isModified :: "event \<Rightarrow> string \<Rightarrow> bool" where
  "isModified doc p \<longleftrightarrow> p \<in> set (modified doc)"

text \<open>The three steps of \<^verbatim>\<open>EventSchema.pre("save")\<close>, in the order of the hook.\<close>

definition pre_save_slug :: "runtime \<Rightarrow> event \<Rightarrow> js_error + event" where
  "pre_save_slug rt doc =
     (if isModified doc ''title'' then
        (case title doc of
           None \<Rightarrow> Inl (TypeError ''Cannot read properties of undefined (reading 'toLowerCase')'')
         | Some t \<Rightarrow>
             Inr (doc\<lparr>slug := set_slug rt (Some (slug_of_title (unicode_lower rt) t))\<rparr>))
      else Inr doc)"

definition pre_save_date :: "runtime \<Rightarrow> event \<Rightarrow> js_error + event" where
  "pre_save_date rt doc =
     (if isModified doc ''date'' then
        (case (case date doc of None \<Rightarrow> None | Some s \<Rightarrow> Date_parse (date_other rt) s) of
           None \<Rightarrow> Inl (Error ''Date must be a valid date string'')
         | Some t \<Rightarrow> Inr (doc\<lparr>date := set_trim (Some (split_T_first (toISOString t)))\<rparr>))
      else Inr doc)"

definition pre_save_time :: "event \<Rightarrow> js_error + event" where
  "pre_save_time doc =
     (if isModified doc ''time'' then
        (if \<not> regex_test timeRegex (case time doc of None \<Rightarrow> js ''undefined'' | Some s \<Rightarrow> s)
         then Inl (Error ''Time must be in HH:MM format (e.g., 14:30)'')
         else Inr doc)
      else Inr doc)"

definition EventSchema_pre_save :: "runtime \<Rightarrow> event \<Rightarrow> js_error + event" where
  "EventSchema_pre_save rt doc =
     (case pre_save_slug rt doc of
        Inl e \<Rightarrow> Inl e
      | Inr doc1 \<Rightarrow>
          (case pre_save_date rt doc1 of
             Inl e \<Rightarrow> Inl e
           | Inr doc2 \<Rightarrow> pre_save_time doc2))"

text \<open>
  Modelled from the spec: the write to the Event collection, which the database does,
  not the repository. The schema declares a unique index on the slug; a document whose
  slug is the slug of another document of the collection is refused with a duplicate
  key. A storage that fails refuses every write. Otherwise the document replaces the one
  with its id, or is added.
\<close>

definition write_event :: "database \<Rightarrow> event \<Rightarrow> (js_error + event) \<times> database" where
  "write_event db doc =
     (case fault db of
        Some f \<Rightarrow> (Inl (StorageError f), db)
      | None \<Rightarrow>
          if list_ex (\<lambda>e. event_id e \<noteq> event_id doc \<and> slug e = slug doc) (events db)
          then (Inl (DuplicateKey ''slug'' (slug doc)), db)
          else (let stored = doc\<lparr>modified := []\<rparr> in
                (Inr stored,
                 db\<lparr>events := filter (\<lambda>e. event_id e \<noteq> event_id doc) (events db) @ [stored]\<rparr>)))"

text \<open>
  \<^verbatim>\<open>doc.save()\<close>: the validation of the schema runs first, then the pre-save hook,
  then the write. A failure at any step leaves the database as it was.
\<close>

definition Event_save :: "runtime \<Rightarrow> database \<Rightarrow> event \<Rightarrow> (js_error + event) \<times> database" where
  "Event_save rt db doc =
     (case EventSchema_validate doc of
        [] \<Rightarrow>
          (case EventSchema_pre_save rt doc of
             Inl e \<Rightarrow> (Inl e, db)
           | Inr doc' \<Rightarrow> write_event db doc')
      | errs \<Rightarrow> (Inl (ValidationError errs), db))"

text \<open>\<^verbatim>\<open>Event.create(fields)\<close>: a new document, saved.\<close>

definition Event_create :: "runtime \<Rightarrow> database \<Rightarrow> event \<Rightarrow> (js_error + event) \<times> database" where
  "Event_create rt db f = Event_save rt db (Event_new rt f)"

section \<open>Booking: schema, validation, pre-save hook\<close>

text \<open>\<^verbatim>\<open>/^[^\s@]+@[^\s@]+\.[^\s@]+$/\<close>\<close>

definition emailRegex :: regex where
  "emailRegex =
     Seq (Plus (NotClass [Space, Chr (cu CHR ''@'')]))
         (Seq (Class [Chr (cu CHR ''@'')])
              (Seq (Plus (NotClass [Space, Chr (cu CHR ''@'')]))
                   (Seq (Class [Chr (cu CHR ''.'')])
                        (Plus (NotClass [Space, Chr (cu CHR ''@'')])))))"

text \<open>
  \<^verbatim>\<open>new Booking(fields)\<close>: the email is trimmed and lower-cased by its setters, and
  the paths that were given a value count as modified.
\<close>

definition Booking_new :: "runtime \<Rightarrow> booking \<Rightarrow> booking" where
  "Booking_new rt f =
     f\<lparr> email := set_email rt (email f),
        booking_modified :=
          (if eventId f = None then [] else [''eventId'']) @
          (if email f = None then [] else [''email'']) \<rparr>"

definition BookingSchema_validate :: "booking \<Rightarrow> (string \<times> string) list" where
  "BookingSchema_validate b =
     (case eventId b of None \<Rightarrow> [(''eventId'', ''Event ID is required'')] | Some _ \<Rightarrow> []) @
     (case email b of
        None \<Rightarrow> [(''email'', ''Email is required'')]
      | Some s \<Rightarrow>
          if s = [] then [(''email'', ''Email is required'')]
          else if regex_test emailRegex s then []
          else [(''email'', ''Please provide a valid email address'')])"

text \<open>
  \<^verbatim>\<open>Event.findById(id)\<close>: rejects with the fault of a storage that fails; otherwise
  resolves to the event with that id, or to null (\<open>None\<close>) when there is none.
\<close>

datatype 'a settled = Resolved 'a | Rejected fault

definition findById :: "database \<Rightarrow> objectId option \<Rightarrow> event option settled" where
  "findById db i =
     (case fault db of
        Some f \<Rightarrow> Rejected f
      | None \<Rightarrow>
          Resolved (case i of None \<Rightarrow> None | Some k \<Rightarrow> find (\<lambda>e. event_id e = k) (events db)))"

definition booking_isModified :: "booking \<Rightarrow> string \<Rightarrow> bool" where
  "booking_isModified b p \<longleftrightarrow> p \<in> set (booking_modified b)"

text \<open>The text of \<^verbatim>\<open>${this.eventId}\<close> in the message.\<close>

definition id_text :: "objectId option \<Rightarrow> string" where
  "id_text i = (case i of None \<Rightarrow> ''undefined'' | Some k \<Rightarrow> k)"

text \<open>\<^verbatim>\<open>BookingSchema.pre("save")\<close>: \<open>Inr ()\<close> is \<^verbatim>\<open>next()\<close>, \<open>Inl e\<close> is \<^verbatim>\<open>next(e)\<close>.\<close>

definition BookingSchema_pre_save :: "database \<Rightarrow> booking \<Rightarrow> js_error + unit" where
  "BookingSchema_pre_save db b =
     (if booking_isModified b ''eventId'' then
        (case findById db (eventId b) of
           Resolved eventExists \<Rightarrow>
             (case eventExists of
                None \<Rightarrow> Inl (Error (''Event with ID '' @ id_text (eventId b) @ '' does not exist''))
              | Some _ \<Rightarrow> Inr ())
         | Rejected (FaultError message) \<Rightarrow> Inl (Error (''Error validating event: '' @ message))
         | Rejected FaultOther \<Rightarrow> Inl (Error ''Error validating event''))
      else Inr ())"

text \<open>
  The write to the Booking collection, by the database: refused by a storage that
  fails; no index of the collection is unique.
\<close>

definition write_booking :: "database \<Rightarrow> booking \<Rightarrow> (js_error + booking) \<times> database" where
  "write_booking db b =
     (case fault db of
        Some f \<Rightarrow> (Inl (StorageError f), db)
      | None \<Rightarrow>
          (let stored = b\<lparr>booking_modified := []\<rparr> in
           (Inr stored,
            db\<lparr>bookings := filter (\<lambda>x. booking_id x \<noteq> booking_id b) (bookings db) @ [stored]\<rparr>)))"

definition Booking_save :: "database \<Rightarrow> booking \<Rightarrow> (js_error + booking) \<times> database" where
  "Booking_save db b =
     (case BookingSchema_validate b of
        [] \<Rightarrow>
          (case BookingSchema_pre_save db b of
             Inl e \<Rightarrow> (Inl e, db)
           | Inr _ \<Rightarrow> write_booking db b)
      | errs \<Rightarrow> (Inl (ValidationError errs), db))"

definition Booking_create :: "runtime \<Rightarrow> database \<Rightarrow> booking \<Rightarrow> (js_error + booking) \<times> database" where
  "Booking_create rt db f = Booking_save db (Booking_new rt f)"

section \<open>The connection cache\<close>

text \<open>
  \<^verbatim>\<open>connectDB\<close> is an async function with one \<^verbatim>\<open>await\<close>. JavaScript runs a call up to
  the \<^verbatim>\<open>await\<close> without interruption, and the rest of the call, once the awaited
  promise is settled, without interruption again. So a run of the process is a sequence
  of three kinds of steps: a caller enters \<^verbatim>\<open>connectDB\<close> and runs to its \<^verbatim>\<open>return\<close> or
  to the \<^verbatim>\<open>await\<close>; the driver settles a connection attempt; a caller waiting on a
  settled attempt resumes and runs to its end.

  A connection attempt is the promise made by \<^verbatim>\<open>mongoose.connect(...).then(...)\<close>;
  the attempts are numbered in the order they are made, and \<open>attempts\<close> holds the state
  of each. An attempt is in flight while it is pending.
\<close>

type_synonym connection = nat
type_synonym attempt = nat
type_synonym caller = nat

datatype attempt_state = Pending | Fulfilled connection | Failed string

datatype call_state = Awaiting attempt | Returned connection | Threw string

record process =
  conn :: "connection option"
  promise :: "attempt option"
  attempts :: "attempt_state list"
  calls :: "caller \<Rightarrow> call_state option"

definition start :: process where
  "start = \<lparr> conn = None, promise = None, attempts = [], calls = (\<lambda>_. None) \<rparr>"

text \<open>
  A caller enters \<^verbatim>\<open>connectDB\<close>: with a cached connection it returns it; otherwise it
  makes a new attempt if \<^verbatim>\<open>cached.promise\<close> is empty, and awaits \<^verbatim>\<open>cached.promise\<close>.
\<close>

definition connectDB_enter :: "caller \<Rightarrow> process \<Rightarrow> process" where
  "connectDB_enter c s =
     (case conn s of
        Some k \<Rightarrow> s\<lparr>calls := (calls s)(c \<mapsto> Returned k)\<rparr>
      | None \<Rightarrow>
          (case promise s of
             None \<Rightarrow>
               s\<lparr>promise := Some (length (attempts s)),
                 attempts := attempts s @ [Pending],
                 calls := (calls s)(c \<mapsto> Awaiting (length (attempts s)))\<rparr>
           | Some p \<Rightarrow> s\<lparr>calls := (calls s)(c \<mapsto> Awaiting p)\<rparr>))"

text \<open>
  A caller resumes after the \<^verbatim>\<open>await\<close>: on a fulfilled attempt it stores the
  connection in \<^verbatim>\<open>cached.conn\<close> and returns it; on a failed attempt the \<^verbatim>\<open>catch\<close>
  block empties \<^verbatim>\<open>cached.promise\<close> and throws the error again.
\<close>

definition connectDB_resume :: "caller \<Rightarrow> attempt_state \<Rightarrow> process \<Rightarrow> process" where
  "connectDB_resume c outcome s =
     (case outcome of
        Fulfilled k \<Rightarrow> s\<lparr>conn := Some k, calls := (calls s)(c \<mapsto> Returned k)\<rparr>
      | Failed e \<Rightarrow> s\<lparr>promise := None, calls := (calls s)(c \<mapsto> Threw e)\<rparr>
      | Pending \<Rightarrow> s)"

datatype action = Call caller | Settle attempt attempt_state | Resume caller

text \<open>One step of the process; \<open>None\<close> when the step cannot be taken in the state.\<close>

definition step :: "action \<Rightarrow> process \<Rightarrow> process option" where
  "step a s =
     (case a of
        Call c \<Rightarrow> (if calls s c = None then Some (connectDB_enter c s) else None)
      | Settle p outcome \<Rightarrow>
          (if p < length (attempts s) \<and> attempts s ! p = Pending \<and> outcome \<noteq> Pending
           then Some (s\<lparr>attempts := (attempts s)[p := outcome]\<rparr>) else None)
      | Resume c \<Rightarrow>
          (case calls s c of
             Some (Awaiting p) \<Rightarrow>
               (if p < length (attempts s) \<and> attempts s ! p \<noteq> Pending
                then Some (connectDB_resume c (attempts s ! p) s) else None)
           | _ \<Rightarrow> None))"

fun run :: "action list \<Rightarrow> process \<Rightarrow> process option" where
  "run [] s = Some s"
| "run (a # as) s = (case step a s of None \<Rightarrow> None | Some s' \<Rightarrow> run as s')"

text \<open>The number of attempts in flight, and the states the process can reach.\<close>

definition in_flight :: "process \<Rightarrow> nat" where
  "in_flight s = length (filter (\<lambda>a. a = Pending) (attempts s))"

inductive reachable :: "process \<Rightarrow> bool" where
  reachable_start: "reachable start"
| reachable_step: "reachable s \<Longrightarrow> step a s = Some s' \<Longrightarrow> reachable s'"

section \<open>The validation rule in the words of the specification\<close>

definition present_nonblank :: "js_string option \<Rightarrow> bool" where
  "present_nonblank v = (case v of None \<Rightarrow> False | Some s \<Rightarrow> trim s \<noteq> [])"

definition mode_allowed :: "js_string option \<Rightarrow> bool" where
  "mode_allowed v = (case v of None \<Rightarrow> False | Some s \<Rightarrow> trim s \<in> set mode_values)"

definition fields_valid :: "event \<Rightarrow> bool" where
  "fields_valid f \<longleftrightarrow>
     present_nonblank (title f) \<and> present_nonblank (description f) \<and>
     present_nonblank (overview f) \<and> present_nonblank (image f) \<and>
     present_nonblank (venue f) \<and> present_nonblank (location f) \<and>
     present_nonblank (date f) \<and> present_nonblank (time f) \<and>
     present_nonblank (mode f) \<and> present_nonblank (audience f) \<and>
     present_nonblank (organizer f) \<and> mode_allowed (mode f) \<and>
     agenda f \<noteq> [] \<and> tags f \<noteq> []"

section \<open>Data for the examples\<close>

text \<open>
  A runtime whose Unicode table changes nothing and which reads no date format of its
  own, a database with no document, and the fields of one event and one booking.
\<close>

definition plain_runtime :: runtime where
  "plain_runtime = \<lparr> unicode_lower = (\<lambda>s. s), date_other = (\<lambda>_. None) \<rparr>"

text \<open>
  The entry of the Unicode table for U+0130, LATIN CAPITAL LETTER I WITH DOT ABOVE, which
  lower-cases to the two code units U+0069 U+0307; every other code unit is left as it
  is.
\<close>

definition lower_dotted :: "js_string \<Rightarrow> js_string" where
  "lower_dotted s = concat (map (\<lambda>c. if c = 304 then [105, 775] else [c]) s)"

definition empty_db :: database where
  "empty_db = \<lparr> events = [], bookings = [], fault = None \<rparr>"

definition talk :: event where
  "talk =
     \<lparr> event_id = ''64b7f0c2a1d3e4f5a6b7c8d9'',
       title = Some (js ''My Cool Talk!!''), slug = None,
       description = Some (js ''A talk''), overview = Some (js ''Overview''),
       image = Some (js ''/images/talk.png''), venue = Some (js ''Hall 1''),
       location = Some (js ''Colombo''), date = Some (js ''2025-01-13''),
       time = Some (js ''09:05''), mode = Some (js ''online''),
       audience = Some (js ''Developers''), agenda = [js ''Keynote''],
       organizer = Some (js ''DevEvent''), tags = [js ''web''], modified = [] \<rparr>"



definition seat :: booking where
  "seat =
     \<lparr> booking_id = ''64b7f0c2a1d3e4f5a6b7c8e0'',
       eventId = Some ''64b7f0c2a1d3e4f5a6b7c8d9'',
       email = Some (js ''Ada@Example.org''), booking_modified = [] \<rparr>"

section \<open>Notions used in the proofs\<close>

text \<open>The hyphens at the end of a string removed; the code units a slug is made of.\<close>

definition strip_tail :: "js_string \<Rightarrow> js_string" where
  "strip_tail s = rev (dropWhile (\<lambda>c. c = 45) (rev s))"

definition slug_unit :: "code_unit \<Rightarrow> bool" where
  "slug_unit c \<longleftrightarrow> (48 \<le> c \<and> c \<le> 57) \<or> (97 \<le> c \<and> c \<le> 122) \<or> c = 45"

text \<open>A pattern that no string matches, seen from its shape.\<close>

fun dead :: "regex \<Rightarrow> bool" where
  "dead Nothing = True"
| "dead (Seq r s) = (dead r \<or> dead s)"
| "dead (Alt r s) = (dead r \<and> dead s)"
| "dead _ = False"

section \<open>The slug of a title\<close>

lemma hyphenate_dropWhile_lead:
  "dropWhile (\<lambda>c. c = 45) (hyphenate (dropWhile is_separator x)) = dropWhile (\<lambda>c. c = 45) (hyphenate x)"
  by (cases x) simp_all

lemma hyphenate_sep_prefix:
  assumes "\<forall>c\<in>set w. is_separator c"
  shows "dropWhile (\<lambda>c. c = 45) (hyphenate (w @ x)) = dropWhile (\<lambda>c. c = 45) (hyphenate x)"
proof (cases w)
  case Nil
  then show ?thesis by simp
next
  case (Cons a w')
  with assms have "dropWhile is_separator (w' @ x) = dropWhile is_separator x"
    by (simp add: dropWhile_append)
  with Cons assms show ?thesis
    by (simp add: hyphenate_dropWhile_lead)
qed

lemma strip_tail_Cons:
  "strip_tail (a # y) = (if strip_tail y = [] \<and> a = 45 then [] else a # strip_tail y)"
  by (auto simp: strip_tail_def dropWhile_append dropWhile_eq_Nil_conv)

lemma dropWhile_all: "\<forall>x\<in>set xs. P x \<Longrightarrow> dropWhile P xs = []"
  by (simp add: dropWhile_eq_Nil_conv)

lemma hyphenate_all_sep:
  "\<forall>c\<in>set w. is_separator c \<Longrightarrow> hyphenate w = (if w = [] then [] else [45])"
  by (cases w) (auto simp: dropWhile_all)

lemma hyphenate_sep_suffix:
  assumes "\<forall>c\<in>set w. is_separator c"
  shows "strip_tail (hyphenate (x @ w)) = strip_tail (hyphenate x)"
  using assms
proof (induction x rule: hyphenate.induct)
  case 1
  then show ?case 
    by (simp add: hyphenate_all_sep strip_tail_def)
next
  case (2 c cs)
  show ?case
  proof (cases "is_separator c")
    case True
    show ?thesis
    proof (cases "\<forall>d\<in>set cs. is_separator d")
      case all: True
      with 2(3) have "\<forall>d\<in>set (cs @ w). is_separator d" by auto
      then have b: "dropWhile is_separator (cs @ w) = []" by (rule dropWhile_all)
      have c: "dropWhile is_separator cs = []" using all by (rule dropWhile_all)
      show ?thesis using True by (simp only: append_Cons hyphenate.simps b c if_True)
    next
      case False
      then have "dropWhile is_separator (cs @ w) = dropWhile is_separator cs @ w"
        by (auto simp: dropWhile_append)
      with 2 True show ?thesis by (simp add: strip_tail_Cons)
    qed
  next
    case False
    with 2 show ?thesis by (simp add: strip_tail_Cons)
  qed
qed

lemma hyphenate_head:
  assumes "hyphenate (dropWhile is_separator x) = k # r"
  shows "k \<noteq> 45"
proof (cases "dropWhile is_separator x")
  case Nil
  with assms show ?thesis by simp
next
  case (Cons a l)
  then have "\<not> is_separator a"
    using hd_dropWhile [of is_separator x] by simp
  with assms Cons show ?thesis by (auto simp: is_separator_def)
qed

lemma strip_lead_hyphenate:
  "dropWhile (\<lambda>c. c = 45) (hyphenate x) = hyphenate (dropWhile is_separator x)"
proof (cases x)
  case Nil
  then show ?thesis by simp
next
  case (Cons c cs)
  show ?thesis
  proof (cases "is_separator c")
    case True
    have "dropWhile (\<lambda>c. c = 45) (hyphenate (dropWhile is_separator cs)) = hyphenate (dropWhile is_separator cs)"
      by (cases "hyphenate (dropWhile is_separator cs)") (auto dest: hyphenate_head)
    with Cons True show ?thesis by simp
  next
    case False
    then have "c \<noteq> 45" by (auto simp: is_separator_def)
    with Cons False show ?thesis by simp
  qed
qed

lemma strip_hyphens_hyphenate:
  "strip_hyphens (hyphenate s) = strip_tail (hyphenate (dropWhile is_separator s))"
  by (simp add: strip_hyphens_def strip_tail_def strip_lead_hyphenate)

lemma strip_hyphens_hyphenate_padding:
  assumes w1: "\<forall>c\<in>set w1. is_separator c" and w2: "\<forall>c\<in>set w2. is_separator c"
  shows "strip_hyphens (hyphenate (w1 @ y @ w2)) = strip_hyphens (hyphenate y)"
proof -
  have a: "dropWhile is_separator (w1 @ y @ w2) = dropWhile is_separator (y @ w2)"
    using w1 by (simp add: dropWhile_append)
  show ?thesis
  proof (cases "\<forall>c\<in>set y. is_separator c")
    case True
    with w2 have "\<forall>d\<in>set (y @ w2). is_separator d" by auto
    then have "dropWhile is_separator (y @ w2) = []" by (rule dropWhile_all)
    moreover have "dropWhile is_separator y = []" using True by (rule dropWhile_all)
    ultimately show ?thesis using a by (simp only: strip_hyphens_hyphenate)
  next
    case False
    then have "dropWhile is_separator (y @ w2) = dropWhile is_separator y @ w2"
      by (auto simp: dropWhile_append)
    with a w2 show ?thesis
      by (simp add: strip_hyphens_hyphenate hyphenate_sep_suffix)
  qed
qed

lemma trim_decompose:
  "s = takeWhile is_space s @ trim s @ rev (takeWhile is_space (rev (dropWhile is_space s)))"
proof -
  let ?d = "dropWhile is_space s"
  have "rev ?d = takeWhile is_space (rev ?d) @ dropWhile is_space (rev ?d)" by simp
  then have "?d = rev (dropWhile is_space (rev ?d)) @ rev (takeWhile is_space (rev ?d))"
    by (metis rev_append rev_rev_ident)
  then have "takeWhile is_space s @ ?d =
    takeWhile is_space s @ trim s @ rev (takeWhile is_space (rev ?d))"
    by (simp add: trim_def)
  then show ?thesis by simp
qed

lemma space_is_separator: "is_space c \<Longrightarrow> is_separator c"
  by (simp add: is_separator_def)

lemma remove_special_spaces: "\<forall>c\<in>set w. is_space c \<Longrightarrow> remove_special w = w"
  by (induction w) (auto simp: remove_special_def slug_keeps_def)

lemma slug_trim_redundant:
  "strip_hyphens (hyphenate (remove_special (trim s))) = strip_hyphens (hyphenate (remove_special s))"
proof -
  let ?w1 = "takeWhile is_space s"
  let ?w2 = "rev (takeWhile is_space (rev (dropWhile is_space s)))"
  have w1: "\<forall>c\<in>set ?w1. is_space c" by (auto dest: set_takeWhileD)
  have w2: "\<forall>c\<in>set ?w2. is_space c" by (auto dest: set_takeWhileD)
  have "remove_special s = remove_special (?w1 @ trim s @ ?w2)"
    using trim_decompose [of s] by simp
  also have "\<dots> = ?w1 @ remove_special (trim s) @ ?w2"
    using remove_special_spaces [OF w1] remove_special_spaces [OF w2]
    by (simp add: remove_special_def)
  finally have "remove_special s = ?w1 @ remove_special (trim s) @ ?w2" .
  moreover have "strip_hyphens (hyphenate (?w1 @ remove_special (trim s) @ ?w2)) =
      strip_hyphens (hyphenate (remove_special (trim s)))"
    using w1 w2 by (intro strip_hyphens_hyphenate_padding) (auto intro: space_is_separator)
  ultimately show ?thesis by simp
qed


lemma slug_of_title_spec: "slug_of_title ul t = slug_spec ul t"
  by (simp add: slug_of_title_def slug_spec_def slug_trim_redundant)

lemma set_hyphenate: "set (hyphenate s) \<subseteq> insert 45 {c \<in> set s. \<not> is_separator c}"
proof (induction s rule: hyphenate.induct)
  case 1
  then show ?case by simp
next
  case (2 c cs)
  show ?case
  proof (cases "is_separator c")
    case True
    with 2 have "set (hyphenate (dropWhile is_separator cs))
        \<subseteq> insert 45 {d \<in> set (dropWhile is_separator cs). \<not> is_separator d}"
      by simp
    moreover have "set (dropWhile is_separator cs) \<subseteq> set cs"
      by (auto dest: set_dropWhileD)
    ultimately show ?thesis using True by auto
  next
    case False
    with 2 show ?thesis by auto
  qed
qed

lemma toLowerCase_no_capital: "c \<in> set (toLowerCase ul t) \<Longrightarrow> \<not> (65 \<le> c \<and> c \<le> 90)"
  by (auto simp: toLowerCase_def ascii_lower_def split: if_splits)

lemma slug_units: "c \<in> set (slug_of_title ul t) \<Longrightarrow> slug_unit c"
proof -
  assume "c \<in> set (slug_of_title ul t)"
  then have "c \<in> set (hyphenate (remove_special (trim (toLowerCase ul t))))"
    by (auto simp: slug_of_title_def strip_hyphens_def dest!: set_dropWhileD)
  then have "c = 45 \<or> (c \<in> set (remove_special (trim (toLowerCase ul t))) \<and> \<not> is_separator c)"
    using set_hyphenate by fastforce
  moreover have "c \<in> set (trim (toLowerCase ul t)) \<Longrightarrow> c \<in> set (toLowerCase ul t)" for c
    by (auto simp: trim_def dest!: set_dropWhileD)
  ultimately have "c = 45 \<or> (slug_keeps c \<and> \<not> is_separator c \<and> \<not> (65 \<le> c \<and> c \<le> 90))"
    using toLowerCase_no_capital [of c ul t] by (auto simp: remove_special_def)
  then show "slug_unit c"
    by (auto simp: slug_unit_def slug_keeps_def is_separator_def is_word_def)
qed

lemma dropWhile_none: "\<forall>x\<in>set xs. \<not> P x \<Longrightarrow> dropWhile P xs = xs"
  by (cases xs) auto

lemma trim_no_space: "\<forall>c\<in>set s. \<not> is_space c \<Longrightarrow> trim s = s"
  by (simp add: trim_def dropWhile_none)

lemma slug_unit_plain: "slug_unit c \<Longrightarrow> c < 128 \<and> ascii_lower c = c \<and> \<not> is_space c"
  by (auto simp: slug_unit_def ascii_lower_def is_space_def)

lemma slug_setters_idle:
  "set_slug rt (Some (slug_of_title ul t)) = Some (slug_of_title ul t)"
proof -
  let ?s = "slug_of_title ul t"
  have u: "\<forall>c\<in>set ?s. c < 128 \<and> ascii_lower c = c \<and> \<not> is_space c"
    using slug_units slug_unit_plain by blast
  then have "list_all (\<lambda>c. c < 128) ?s" by (simp add: list_all_iff)
  then have "toLowerCase (unicode_lower rt) ?s = map ascii_lower ?s"
    by (simp add: toLowerCase_def)
  also have "\<dots> = ?s" using u by (simp add: map_idI)
  finally have "toLowerCase (unicode_lower rt) ?s = ?s" .
  moreover have "trim ?s = ?s" using u by (simp add: trim_no_space)
  ultimately show ?thesis by (simp add: set_slug_def)
qed

lemma pre_save_date_slug: "pre_save_date rt d = Inr d' \<Longrightarrow> slug d' = slug d"
  by (auto simp: pre_save_date_def split: if_splits option.splits)

lemma pre_save_time_slug: "pre_save_time d = Inr d' \<Longrightarrow> slug d' = slug d"
  by (auto simp: pre_save_time_def split: if_splits)

lemma pre_save_slug_value:
  "isModified doc ''title'' \<Longrightarrow> title doc = Some t \<Longrightarrow>
   pre_save_slug rt doc = Inr (doc\<lparr>slug := Some (slug_of_title (unicode_lower rt) t)\<rparr>)"
  by (simp add: pre_save_slug_def slug_setters_idle)

lemma EventSchema_pre_save_slug:
  assumes "EventSchema_pre_save rt doc = Inr doc'" "isModified doc ''title''" "title doc = Some t"
  shows "slug doc' = Some (slug_of_title (unicode_lower rt) t)"
  using assms
  by (auto simp: EventSchema_pre_save_def pre_save_slug_value
      split: sum.splits dest!: pre_save_date_slug pre_save_time_slug)

lemma my_cool_talk: "slug_of_title ul (js ''My Cool Talk!!'') = js ''my-cool-talk''"
  by (simp add: slug_of_title_def js_def toLowerCase_def ascii_lower_def trim_def remove_special_def slug_keeps_def is_word_def is_space_def is_separator_def strip_hyphens_def)

text \<open>
  C3. Whenever the pre-save hook passes on a document whose title is modified, the slug
  it leaves is the slug of the specification: the title lower-cased, without the
  characters outside word characters, whitespace and hyphen, with each run of
  whitespace, underscore and hyphen turned into one hyphen, and without hyphens at the
  ends. The title "My Cool Talk!!" gives the slug "my-cool-talk".
\<close>

theorem slug_at_write_time:
  "(EventSchema_pre_save rt doc = Inr doc' \<and> isModified doc ''title'' \<and> title doc = Some t
      \<longrightarrow> slug doc' = Some (slug_spec (unicode_lower rt) t)) \<and>
   slug_of_title ul t = slug_spec ul t \<and>
   slug_spec ul (js ''My Cool Talk!!'') = js ''my-cool-talk''"
  using EventSchema_pre_save_slug [of rt doc doc' t] slug_of_title_spec my_cool_talk [of ul]
  by auto

theorem slug_at_write_time_witness:
  "EventSchema_pre_save plain_runtime (Event_new plain_runtime talk) =
     Inr ((Event_new plain_runtime talk)\<lparr>slug := Some (js ''my-cool-talk'')\<rparr>) \<and>
   isModified (Event_new plain_runtime talk) ''title'' \<and>
   title (Event_new plain_runtime talk) = Some (js ''My Cool Talk!!'') \<and>
   slug ((Event_new plain_runtime talk)\<lparr>slug := Some (js ''my-cool-talk'')\<rparr>) =
     Some (slug_spec (unicode_lower plain_runtime) (js ''My Cool Talk!!''))"
proof -
  have h: "EventSchema_pre_save plain_runtime (Event_new plain_runtime talk) =
      Inr ((Event_new plain_runtime talk)\<lparr>slug := Some (js ''my-cool-talk'')\<rparr>) \<and>
    isModified (Event_new plain_runtime talk) ''title'' \<and>
    title (Event_new plain_runtime talk) = Some (js ''My Cool Talk!!'')"
    by code_simp
  with slug_at_write_time [of plain_runtime "Event_new plain_runtime talk"
      "(Event_new plain_runtime talk)\<lparr>slug := Some (js ''my-cool-talk'')\<rparr>"
      "js ''My Cool Talk!!''"]
  show ?thesis by blast
qed

section \<open>Titles with an empty slug\<close>

lemma no_kept_unit_empty_slug:
  assumes "list_all (\<lambda>c. \<not> slug_keeps c) (toLowerCase ul t)"
  shows "slug_of_title ul t = []"
proof -
  have "set (trim (toLowerCase ul t)) \<subseteq> set (toLowerCase ul t)"
    by (auto simp: trim_def dest!: set_dropWhileD)
  with assms have "remove_special (trim (toLowerCase ul t)) = []"
    by (auto simp: remove_special_def list_all_iff filter_empty_conv)
  then show ?thesis by (simp add: slug_of_title_def strip_hyphens_def)
qed

lemma ascii_lower_keeps: "slug_keeps (ascii_lower c) \<Longrightarrow> slug_keeps c"
  by (auto simp: ascii_lower_def slug_keeps_def is_word_def is_space_def split: if_splits)

lemma ascii_no_kept_unit:
  assumes "list_all (\<lambda>c. c < 128 \<and> \<not> slug_keeps c) t"
  shows "list_all (\<lambda>c. \<not> slug_keeps c) (toLowerCase ul t)"
proof -
  from assms have "list_all (\<lambda>c. c < 128) t" by (simp add: list_all_iff)
  then have "toLowerCase ul t = map ascii_lower t" by (simp add: toLowerCase_def)
  with assms show ?thesis
    by (auto simp: list_all_iff dest: ascii_lower_keeps)
qed

lemma bangs: "slug_of_title ul (js ''!!!'') = []"
  by (simp add: slug_of_title_def js_def toLowerCase_def ascii_lower_def trim_def
      remove_special_def slug_keeps_def is_word_def is_space_def strip_hyphens_def)

lemma create_bangs:
  "Event_create plain_runtime empty_db (talk\<lparr>title := Some (js ''!!!'')\<rparr>) =
     (Inr (talk\<lparr>title := Some (js ''!!!''), slug := Some []\<rparr>),
      empty_db\<lparr>events := [talk\<lparr>title := Some (js ''!!!''), slug := Some []\<rparr>]\<rparr>)"
  by code_simp

lemma create_bangs_again:
  "Event_create plain_runtime
     (empty_db\<lparr>events := [talk\<lparr>title := Some (js ''!!!''), slug := Some []\<rparr>]\<rparr>)
     (talk\<lparr>event_id := ''64b7f0c2a1d3e4f5a6b7c8da'', title := Some (js ''???'')\<rparr>) =
     (Inl (DuplicateKey ''slug'' (Some [])),
      empty_db\<lparr>events := [talk\<lparr>title := Some (js ''!!!''), slug := Some []\<rparr>]\<rparr>)"
  by code_simp

text \<open>
  C10, as the specification states it, fails for a title that is not ASCII: the title
  made of the one code unit U+0130 has no word character, no whitespace and no hyphen,
  yet it lower-cases to "i" followed by U+0307, and its slug is "i".
\<close>

theorem dotted_capital_has_a_slug:
  "\<not> slug_keeps 304 \<and> toLowerCase lower_dotted [304] = [105, 775] \<and>
   slug_of_title lower_dotted [304] = js ''i''"
  by code_simp

text \<open>
  C10, amended. For some titles that are not empty the slug is the empty string: the
  title "!!!" has the empty slug, and so has every title whose lower-cased code units
  all lie outside word characters, whitespace and hyphen; for a title of ASCII code
  units that is every title made of such code units only. An event with the title "!!!"
  is stored with the slug "", and the creation of a second event whose title ("???") has
  the empty slug too is then refused by the unique index on the slug.
\<close>

theorem empty_slug_of_nonempty_title:
  "slug_of_title ul (js ''!!!'') = [] \<and>
   (list_all (\<lambda>c. \<not> slug_keeps c) (toLowerCase ul t) \<longrightarrow> slug_of_title ul t = []) \<and>
   (list_all (\<lambda>c. c < 128 \<and> \<not> slug_keeps c) t \<longrightarrow> slug_of_title ul t = []) \<and>
   Event_create plain_runtime empty_db (talk\<lparr>title := Some (js ''!!!'')\<rparr>) =
     (Inr (talk\<lparr>title := Some (js ''!!!''), slug := Some []\<rparr>),
      empty_db\<lparr>events := [talk\<lparr>title := Some (js ''!!!''), slug := Some []\<rparr>]\<rparr>) \<and>
   Event_create plain_runtime
     (empty_db\<lparr>events := [talk\<lparr>title := Some (js ''!!!''), slug := Some []\<rparr>]\<rparr>)
     (talk\<lparr>event_id := ''64b7f0c2a1d3e4f5a6b7c8da'', title := Some (js ''???'')\<rparr>) =
     (Inl (DuplicateKey ''slug'' (Some [])),
      empty_db\<lparr>events := [talk\<lparr>title := Some (js ''!!!''), slug := Some []\<rparr>]\<rparr>)"
  using bangs [of ul] no_kept_unit_empty_slug [of ul t] ascii_no_kept_unit [of t ul]
    create_bangs create_bangs_again
  by blast

theorem empty_slug_of_nonempty_title_witness:
  "list_all (\<lambda>c. c < 128 \<and> \<not> slug_keeps c) (js ''?!'') \<and>
   list_all (\<lambda>c. \<not> slug_keeps c) (toLowerCase (\<lambda>s. s) (js ''?!'')) \<and>
   slug_of_title (\<lambda>s. s) (js ''?!'') = []"
proof -
  have h: "list_all (\<lambda>c. c < 128 \<and> \<not> slug_keeps c) (js ''?!'') \<and>
      list_all (\<lambda>c. \<not> slug_keeps c) (toLowerCase (\<lambda>s. s) (js ''?!''))"
    by code_simp
  with empty_slug_of_nonempty_title [of "\<lambda>s. s" "js ''?!''"] show ?thesis by blast
qed

section \<open>The time of day\<close>

lemma dead_not_nullable: "dead r \<Longrightarrow> \<not> nullable r"
  by (induction r) auto

lemma dead_deriv: "dead r \<Longrightarrow> dead (deriv c r)"
  by (induction r) (auto simp: dead_not_nullable)

lemma dead_derivs: "dead r \<Longrightarrow> \<not> nullable (derivs s r)"
  by (induction s arbitrary: r) (auto simp: dead_not_nullable dead_deriv)

lemma time_too_long: "\<not> regex_test timeRegex (a # b # c # d # e # f # r)"
  by (simp add: regex_test_def timeRegex_def cu_def dead_derivs)

lemmas time_unfold =
  regex_test_def timeRegex_def is_HH_MM_def is_H_MM_def cu_def is_digit_def digit_val_def

lemma time_shapes: "regex_test timeRegex s \<longleftrightarrow> is_HH_MM s \<or> is_H_MM s"
proof (cases s)
  case Nil
  then show ?thesis by (simp add: time_unfold)
next
  case s1: (Cons a s1)
  show ?thesis
  proof (cases s1)
    case Nil
    with s1 show ?thesis by (simp add: time_unfold)
  next
    case s2: (Cons b s2)
    show ?thesis
    proof (cases s2)
      case Nil
      with s1 s2 show ?thesis by (simp add: time_unfold)
    next
      case s3: (Cons c s3)
      show ?thesis
      proof (cases s3)
        case Nil
        with s1 s2 s3 show ?thesis by (simp add: time_unfold)
      next
        case s4: (Cons d s4)
        show ?thesis
        proof (cases s4)
          case Nil
          with s1 s2 s3 s4 show ?thesis by (auto simp add: time_unfold)
        next
          case s5: (Cons e s5)
          show ?thesis
          proof (cases s5)
            case Nil
            with s1 s2 s3 s4 s5 show ?thesis by (auto simp add: time_unfold)
          next
            case (Cons f r)
            with s1 s2 s3 s4 s5 show ?thesis
              using time_too_long [of a b c d e f r] by (simp add: is_HH_MM_def is_H_MM_def)
          qed
        qed
      qed
    qed
  qed
qed

lemma undefined_is_no_time: "\<not> regex_test timeRegex (js ''undefined'')"
  by code_simp

lemma pre_save_slug_keeps:
  "pre_save_slug rt d = Inr d' \<Longrightarrow> time d' = time d \<and> date d' = date d \<and> modified d' = modified d"
  by (auto simp: pre_save_slug_def split: if_splits option.splits)

lemma pre_save_date_keeps:
  "pre_save_date rt d = Inr d' \<Longrightarrow> time d' = time d \<and> modified d' = modified d"
  by (auto simp: pre_save_date_def split: if_splits option.splits)

lemma pre_save_time_passes:
  assumes "pre_save_time d = Inr d'" "isModified d ''time''"
  shows "d' = d \<and> (\<exists>s. time d = Some s \<and> (is_HH_MM s \<or> is_H_MM s))"
proof -
  from assms have m: "regex_test timeRegex (case time d of None \<Rightarrow> js ''undefined'' | Some s \<Rightarrow> s)"
    and d: "d' = d"
    by (auto simp: pre_save_time_def split: if_splits)
  from m obtain s where "time d = Some s" "regex_test timeRegex s"
    using undefined_is_no_time by (cases "time d") auto
  with d show ?thesis by (auto simp: time_shapes)
qed

lemma pre_save_time_fails:
  assumes "isModified d ''time''" "time d = Some s" "\<not> (is_HH_MM s \<or> is_H_MM s)"
  shows "pre_save_time d = Inl (Error ''Time must be in HH:MM format (e.g., 14:30)'')"
  using assms by (simp add: pre_save_time_def time_shapes)

lemma EventSchema_pre_save_time:
  assumes "EventSchema_pre_save rt doc = Inr doc'" "isModified doc ''time''"
  shows "\<exists>s. time doc' = Some s \<and> time doc = Some s \<and> (is_HH_MM s \<or> is_H_MM s)"
proof -
  from assms(1) obtain d1 d2 where s1: "pre_save_slug rt doc = Inr d1"
    and s2: "pre_save_date rt d1 = Inr d2" and s3: "pre_save_time d2 = Inr doc'"
    by (auto simp: EventSchema_pre_save_def split: sum.splits)
  from s1 s2 have k: "time d2 = time doc" "modified d2 = modified doc"
    by (auto dest!: pre_save_slug_keeps pre_save_date_keeps)
  with assms(2) have "isModified d2 ''time''" by (simp add: isModified_def)
  with s3 k show ?thesis by (auto dest!: pre_save_time_passes)
qed

lemma EventSchema_pre_save_bad_time:
  assumes "isModified doc ''time''" "time doc = Some s" "\<not> (is_HH_MM s \<or> is_H_MM s)"
  shows "\<exists>e. EventSchema_pre_save rt doc = Inl e"
proof (cases "EventSchema_pre_save rt doc")
  case (Inl e)
  then show ?thesis by blast
next
  case (Inr doc')
  with assms show ?thesis by (auto dest!: EventSchema_pre_save_time)
qed

lemma write_event_result:
  "write_event db d = (Inr stored, db') \<Longrightarrow> stored = d\<lparr>modified := []\<rparr>"
  by (auto simp: write_event_def Let_def split: option.splits if_splits)

lemma Event_save_cases:
  "(\<exists>e. Event_save rt db doc = (Inl e, db)) \<or>
   (\<exists>d. EventSchema_validate doc = [] \<and> EventSchema_pre_save rt doc = Inr d \<and>
        Event_save rt db doc = write_event db d \<and> fault db = None)"
  by (auto simp: Event_save_def write_event_def split: list.splits sum.splits option.splits)

lemma Event_save_stored:
  assumes "Event_save rt db doc = (Inr stored, db')"
  shows "\<exists>d. EventSchema_validate doc = [] \<and> EventSchema_pre_save rt doc = Inr d \<and>
    stored = d\<lparr>modified := []\<rparr> \<and> write_event db d = (Inr stored, db')"
proof -
  from assms Event_save_cases [of rt db doc]
  obtain d where d: "EventSchema_validate doc = []" "EventSchema_pre_save rt doc = Inr d"
    "Event_save rt db doc = write_event db d"
    by auto
  with assms have w: "write_event db d = (Inr stored, db')" by simp
  with d write_event_result [OF w] show ?thesis by blast
qed

lemma Event_save_bad_time:
  assumes "isModified doc ''time''" "time doc = Some s" "\<not> (is_HH_MM s \<or> is_H_MM s)"
  shows "\<exists>e. Event_save rt db doc = (Inl e, db)"
  using EventSchema_pre_save_bad_time [OF assms, of rt] Event_save_cases [of rt db doc]
  by auto

lemma Event_save_good_time:
  assumes "Event_save rt db doc = (Inr stored, db')" "isModified doc ''time''"
  shows "\<exists>s. time stored = Some s \<and> (is_HH_MM s \<or> is_H_MM s)"
proof -
  from assms(1) obtain d where "EventSchema_pre_save rt doc = Inr d" "stored = d\<lparr>modified := []\<rparr>"
    by (auto dest!: Event_save_stored)
  with assms(2) show ?thesis by (auto dest!: EventSchema_pre_save_time)
qed

lemma time_examples:
  "Event_create plain_runtime empty_db (talk\<lparr>time := Some (js ''25:61'')\<rparr>) =
     (Inl (Error ''Time must be in HH:MM format (e.g., 14:30)''), empty_db) \<and>
   Event_create plain_runtime empty_db (talk\<lparr>time := Some (js ''9:5'')\<rparr>) =
     (Inl (Error ''Time must be in HH:MM format (e.g., 14:30)''), empty_db) \<and>
   Event_create plain_runtime empty_db talk =
     (Inr (talk\<lparr>slug := Some (js ''my-cool-talk'')\<rparr>),
      empty_db\<lparr>events := [talk\<lparr>slug := Some (js ''my-cool-talk'')\<rparr>]\<rparr>) \<and>
   time talk = Some (js ''09:05'')"
  by code_simp

text \<open>
  C5. Every stored time of an event is meant to be HH:MM, with an hour of two digits
  from 00 to 23 and a minute of two digits from 00 to 59; the comment of the hook and
  the message of its error say so. The code does not keep that: the creation of an event
  with the time "9:05" succeeds and stores "9:05", which is not of the form HH:MM. The
  pattern of the hook makes the first digit of the hour optional, and the hook stores
  the time as it was given. The other examples of the claim hold: "25:61" and "9:5" are
  refused, "09:05" is stored.
\<close>

theorem one_digit_hour_is_stored:
  "Event_create plain_runtime empty_db (talk\<lparr>time := Some (js ''9:05'')\<rparr>) =
     (Inr (talk\<lparr>time := Some (js ''9:05''), slug := Some (js ''my-cool-talk'')\<rparr>),
      empty_db\<lparr>events :=
        [talk\<lparr>time := Some (js ''9:05''), slug := Some (js ''my-cool-talk'')\<rparr>]\<rparr>) \<and>
   \<not> is_HH_MM (js ''9:05'')"
  by code_simp

section \<open>The validation of an event\<close>

lemma required_string_trimmed:
  "required_string p msg (set_trim v) = [] \<longleftrightarrow> present_nonblank v"
  by (cases v) (auto simp: required_string_def set_trim_def present_nonblank_def)

lemma validate_mode_trimmed:
  "validate_mode (set_trim v) = [] \<longleftrightarrow> present_nonblank v \<and> mode_allowed v"
  by (cases v)
     (auto simp: validate_mode_def set_trim_def present_nonblank_def mode_allowed_def
        mode_values_def js_def)

lemma validate_list_nonempty: "validate_list p msg v = [] \<longleftrightarrow> v \<noteq> []"
  by (simp add: validate_list_def)

lemma validate_new_event: "EventSchema_validate (Event_new rt f) = [] \<longleftrightarrow> fields_valid f"
  unfolding EventSchema_validate_def append_is_Nil_conv fields_valid_def
  by (simp add: Event_new_def required_string_trimmed validate_mode_trimmed
      validate_list_nonempty conj_ac)

lemma Event_save_invalid:
  "EventSchema_validate doc \<noteq> [] \<Longrightarrow>
   Event_save rt db doc = (Inl (ValidationError (EventSchema_validate doc)), db)"
  by (cases "EventSchema_validate doc") (simp_all add: Event_save_def)

lemma Event_create_invalid:
  assumes "\<not> fields_valid f"
  shows "EventSchema_validate (Event_new rt f) \<noteq> [] \<and>
    Event_create rt db f = (Inl (ValidationError (EventSchema_validate (Event_new rt f))), db)"
  using assms Event_save_invalid [of "Event_new rt f" rt db]
  by (simp add: validate_new_event Event_create_def)

lemma empty_lists_refused:
  "Event_create plain_runtime empty_db (talk\<lparr>agenda := []\<rparr>) =
     (Inl (ValidationError [(''agenda'', ''Agenda must contain at least one item'')]), empty_db) \<and>
   Event_create plain_runtime empty_db (talk\<lparr>tags := []\<rparr>) =
     (Inl (ValidationError [(''tags'', ''At least one tag is required'')]), empty_db)"
  by code_simp

text \<open>
  C9. The validation of a new event passes exactly when title, description, overview,
  image, venue, location, date, time, mode, audience and organizer are present and not
  blank after trimming, the trimmed mode is one of online, offline and hybrid, and
  agenda and tags are not empty. A save of a document that fails the validation is
  refused with the validation error and the database is left as it was, and so is the
  creation of an event from fields that break the rule; with an empty agenda, and with
  no tags, the creation fails.
\<close>

theorem event_validation:
  "(EventSchema_validate (Event_new rt f) = [] \<longleftrightarrow> fields_valid f) \<and>
   (EventSchema_validate doc \<noteq> [] \<longrightarrow>
      Event_save rt db doc = (Inl (ValidationError (EventSchema_validate doc)), db)) \<and>
   (\<not> fields_valid f \<longrightarrow>
      EventSchema_validate (Event_new rt f) \<noteq> [] \<and>
      Event_create rt db f =
        (Inl (ValidationError (EventSchema_validate (Event_new rt f))), db)) \<and>
   Event_create plain_runtime empty_db (talk\<lparr>agenda := []\<rparr>) =
     (Inl (ValidationError [(''agenda'', ''Agenda must contain at least one item'')]), empty_db) \<and>
   Event_create plain_runtime empty_db (talk\<lparr>tags := []\<rparr>) =
     (Inl (ValidationError [(''tags'', ''At least one tag is required'')]), empty_db)"
  using validate_new_event [of rt f] Event_save_invalid [of doc rt db]
    Event_create_invalid [of f rt db] empty_lists_refused
  by blast

theorem event_validation_witness:
  "\<not> fields_valid (talk\<lparr>title := Some (js ''   '')\<rparr>) \<and>
   EventSchema_validate (Event_new plain_runtime (talk\<lparr>title := Some (js ''   '')\<rparr>)) =
     [(''title'', ''Event title is required'')] \<and>
   Event_create plain_runtime empty_db (talk\<lparr>title := Some (js ''   '')\<rparr>) =
     (Inl (ValidationError [(''title'', ''Event title is required'')]), empty_db) \<and>
   Event_save plain_runtime empty_db (Event_new plain_runtime (talk\<lparr>mode := Some (js ''remote'')\<rparr>)) =
     (Inl (ValidationError [(''mode'', ''Mode must be either online, offline, or hybrid'')]), empty_db)"
proof -
  have a: "\<not> fields_valid (talk\<lparr>title := Some (js ''   '')\<rparr>)"
    by code_simp
  have b: "EventSchema_validate (Event_new plain_runtime (talk\<lparr>title := Some (js ''   '')\<rparr>)) =
      [(''title'', ''Event title is required'')]"
    by code_simp
  have c: "EventSchema_validate (Event_new plain_runtime (talk\<lparr>mode := Some (js ''remote'')\<rparr>)) =
      [(''mode'', ''Mode must be either online, offline, or hybrid'')]"
    by code_simp
  from a b c
    event_validation [of plain_runtime "talk\<lparr>title := Some (js ''   '')\<rparr>"
      "Event_new plain_runtime (talk\<lparr>mode := Some (js ''remote'')\<rparr>)" empty_db]
  show ?thesis by simp
qed

section \<open>The calendar date\<close>

lemma digit_at_digit: "48 \<le> digit_at n i \<and> digit_at n i \<le> 57"
proof -
  have "0 \<le> (n div 10 ^ i) mod 10 \<and> (n div 10 ^ i) mod 10 < 10"
    by simp
  then show ?thesis by (simp add: digit_at_def)
qed

lemma digit_at_not_T: "digit_at n i \<noteq> 84"
  using digit_at_digit [of n i] by auto

lemma date_part_shape:
  assumes "civil_from_days (t div msPerDay) = (y, m, d)" "0 \<le> y" "y \<le> 9999"
  shows "split_T_first (toISOString t) = pad4 y @ [45] @ pad2 m @ [45] @ pad2 d \<and>
    is_YYYY_MM_DD (split_T_first (toISOString t))"
  using assms
  by (simp add: toISOString_def iso_year_def split_T_first_def pad4_def pad2_def
      is_YYYY_MM_DD_def is_digit_def digit_at_digit digit_at_not_T Let_def)

lemma pre_save_date_unparseable:
  assumes "isModified doc ''date''" "date doc = Some s" "Date_parse (date_other rt) s = None"
  shows "pre_save_date rt doc = Inl (Error ''Date must be a valid date string'')"
  using assms by (simp add: pre_save_date_def)

lemma pre_save_date_parseable:
  assumes "isModified doc ''date''" "date doc = Some s" "Date_parse (date_other rt) s = Some t"
  shows "pre_save_date rt doc = Inr (doc\<lparr>date := Some (trim (split_T_first (toISOString t)))\<rparr>)"
  using assms by (simp add: pre_save_date_def set_trim_def)

lemma digit_at_no_space: "\<not> is_space (digit_at n i)"
  using digit_at_digit [of n i] by (auto simp: is_space_def)

lemma stored_date_shape:
  assumes "isModified doc ''date''" "date doc = Some s" "Date_parse (date_other rt) s = Some t"
    "civil_from_days (t div msPerDay) = (y, m, d)" "0 \<le> y" "y \<le> 9999"
  shows "pre_save_date rt doc = Inr (doc\<lparr>date := Some (pad4 y @ [45] @ pad2 m @ [45] @ pad2 d)\<rparr>) \<and>
    is_YYYY_MM_DD (pad4 y @ [45] @ pad2 m @ [45] @ pad2 d)"
proof -
  let ?u = "pad4 y @ [45] @ pad2 m @ [45] @ pad2 d"
  from assms(4-6) have v: "split_T_first (toISOString t) = ?u \<and>
      is_YYYY_MM_DD (split_T_first (toISOString t))"
    by (rule date_part_shape)
  then have u: "split_T_first (toISOString t) = ?u" "is_YYYY_MM_DD ?u"
    by (blast, metis)
  have "\<not> is_space 45" by (simp add: is_space_def)
  then have "\<forall>c\<in>set ?u. \<not> is_space c"
    by (simp add: pad4_def pad2_def digit_at_no_space)
  then have "trim ?u = ?u" by (rule trim_no_space)
  with assms(1-3) u show ?thesis by (simp add: pre_save_date_parseable)
qed

lemma slash_date_refused:
  assumes "date_other rt (js ''13/01/2025'') = None"
  shows "pre_save_date rt (Event_new rt (talk\<lparr>date := Some (js ''13/01/2025'')\<rparr>)) =
    Inl (Error ''Date must be a valid date string'')"
proof -
  have "parse_date_only (js ''13/01/2025'') = None" by code_simp
  with assms have "Date_parse (date_other rt) (js ''13/01/2025'') = None"
    by (simp add: Date_parse_def)
  moreover have "trim (js ''13/01/2025'') = js ''13/01/2025''" by code_simp
  moreover have "date talk \<noteq> None" by (simp add: talk_def)
  ultimately show ?thesis
    by (simp add: pre_save_date_def Event_new_def isModified_def paths_set_def set_trim_def)
qed

lemma date_examples:
  "Event_create plain_runtime empty_db (talk\<lparr>date := Some (js ''13/01/2025'')\<rparr>) =
     (Inl (Error ''Date must be a valid date string''), empty_db) \<and>
   Event_create plain_runtime empty_db talk =
     (Inr (talk\<lparr>slug := Some (js ''my-cool-talk'')\<rparr>),
      empty_db\<lparr>events := [talk\<lparr>slug := Some (js ''my-cool-talk'')\<rparr>]\<rparr>) \<and>
   date talk = Some (js ''2025-01-13'') \<and>
   toISOString 1736726400000 = js ''2025-01-13T00:00:00.000Z''"
  by code_simp

text \<open>
  C4 holds for the dates of the years 0 to 9999 and fails outside: the string
  "+010000-01-01" is a date of the ECMAScript format (1 January of the year 10000), the
  hook parses it, and the event is stored with the date "+010000-01-01", which is not
  of the form YYYY-MM-DD.
\<close>

theorem expanded_year_is_stored:
  "Event_create plain_runtime empty_db (talk\<lparr>date := Some (js ''+010000-01-01'')\<rparr>) =
     (Inr (talk\<lparr>date := Some (js ''+010000-01-01''), slug := Some (js ''my-cool-talk'')\<rparr>),
      empty_db\<lparr>events :=
        [talk\<lparr>date := Some (js ''+010000-01-01''), slug := Some (js ''my-cool-talk'')\<rparr>]\<rparr>) \<and>
   Date_parse (date_other plain_runtime) (js ''+010000-01-01'') = Some 253402300800000 \<and>
   \<not> is_YYYY_MM_DD (js ''+010000-01-01'')"
  by code_simp

lemma expanded_year_any_runtime:
  "Event_create rt empty_db (talk\<lparr>date := Some (js ''+010000-01-01'')\<rparr>) =
     (Inr (talk\<lparr>date := Some (js ''+010000-01-01''), slug := Some (js ''my-cool-talk'')\<rparr>),
      empty_db\<lparr>events :=
        [talk\<lparr>date := Some (js ''+010000-01-01''), slug := Some (js ''my-cool-talk'')\<rparr>]\<rparr>)"
  by code_simp

section \<open>The unique index on the slug\<close>

lemma pre_save_slug_id: "pre_save_slug rt d = Inr d' \<Longrightarrow> event_id d' = event_id d"
  by (auto simp: pre_save_slug_def split: if_splits option.splits)

lemma pre_save_date_id: "pre_save_date rt d = Inr d' \<Longrightarrow> event_id d' = event_id d"
  by (auto simp: pre_save_date_def split: if_splits option.splits)

lemma pre_save_time_id: "pre_save_time d = Inr d' \<Longrightarrow> event_id d' = event_id d"
  by (auto simp: pre_save_time_def split: if_splits)

lemma EventSchema_pre_save_id:
  "EventSchema_pre_save rt d = Inr d' \<Longrightarrow> event_id d' = event_id d"
  by (auto simp: EventSchema_pre_save_def split: sum.splits
      dest!: pre_save_slug_id pre_save_date_id pre_save_time_id)

lemma Event_new_title:
  "title f = Some t \<Longrightarrow>
   title (Event_new rt f) = Some (trim t) \<and> isModified (Event_new rt f) ''title'' \<and>
   event_id (Event_new rt f) = event_id f"
  by (simp add: Event_new_def set_trim_def isModified_def paths_set_def)

lemma hooked_new_event:
  assumes "EventSchema_pre_save rt (Event_new rt f) = Inr d" "title f = Some t"
  shows "slug d = Some (slug_of_title (unicode_lower rt) (trim t)) \<and> event_id d = event_id f"
  using assms Event_new_title [of f t rt]
    EventSchema_pre_save_slug [of rt "Event_new rt f" d "trim t"]
    EventSchema_pre_save_id [of rt "Event_new rt f" d]
  by simp

lemma write_event_free:
  assumes "fault db = None"
    "\<not> list_ex (\<lambda>e. event_id e \<noteq> event_id d \<and> slug e = slug d) (events db)"
  shows "write_event db d =
    (Inr (d\<lparr>modified := []\<rparr>),
     db\<lparr>events := filter (\<lambda>e. event_id e \<noteq> event_id d) (events db) @ [d\<lparr>modified := []\<rparr>]\<rparr>)"
  using assms by (simp add: write_event_def Let_def)

lemma write_event_taken:
  assumes "fault db = None" "e \<in> set (events db)" "event_id e \<noteq> event_id d" "slug e = slug d"
  shows "write_event db d = (Inl (DuplicateKey ''slug'' (slug d)), db)"
proof -
  from assms have "list_ex (\<lambda>e. event_id e \<noteq> event_id d \<and> slug e = slug d) (events db)"
    by (auto simp: list_ex_iff)
  with assms(1) show ?thesis by (simp add: write_event_def)
qed

lemma Event_create_hooked:
  assumes "fields_valid f" "EventSchema_pre_save rt (Event_new rt f) = Inr d"
  shows "Event_create rt db f = write_event db d"
  using assms validate_new_event [of rt f] by (simp add: Event_create_def Event_save_def)

lemma second_create_collides:
  assumes v1: "fields_valid f1" and v2: "fields_valid f2"
    and h1: "EventSchema_pre_save rt (Event_new rt f1) = Inr d1"
    and h2: "EventSchema_pre_save rt (Event_new rt f2) = Inr d2"
    and t1: "title f1 = Some t1" and t2: "title f2 = Some t2"
    and same: "slug_of_title (unicode_lower rt) (trim t1) = slug_of_title (unicode_lower rt) (trim t2)"
    and ids: "event_id f1 \<noteq> event_id f2"
    and ok: "fault db = None"
    and free: "\<not> list_ex (\<lambda>e. event_id e \<noteq> event_id f1 \<and>
        slug e = Some (slug_of_title (unicode_lower rt) (trim t1))) (events db)"
  shows "\<exists>e1 db1. Event_create rt db f1 = (Inr e1, db1) \<and>
      slug e1 = Some (slug_of_title (unicode_lower rt) (trim t1)) \<and> e1 \<in> set (events db1) \<and>
      Event_create rt db1 f2 =
        (Inl (DuplicateKey ''slug'' (Some (slug_of_title (unicode_lower rt) (trim t2)))), db1)"
proof -
  let ?k = "Some (slug_of_title (unicode_lower rt) (trim t1))"
  let ?e1 = "d1\<lparr>modified := []\<rparr>"
  let ?db1 = "db\<lparr>events := filter (\<lambda>e. event_id e \<noteq> event_id d1) (events db) @ [?e1]\<rparr>"
  from h1 t1 have d1: "slug d1 = ?k" "event_id d1 = event_id f1"
    using hooked_new_event by blast+
  from h2 t2 same have d2: "slug d2 = ?k" "event_id d2 = event_id f2"
    using hooked_new_event [of rt f2 d2 t2] by simp_all
  from free d1 have "\<not> list_ex (\<lambda>e. event_id e \<noteq> event_id d1 \<and> slug e = slug d1) (events db)"
    by simp
  with ok have w1: "write_event db d1 = (Inr ?e1, ?db1)"
    by (rule write_event_free)
  with v1 h1 have c1: "Event_create rt db f1 = (Inr ?e1, ?db1)"
    by (simp add: Event_create_hooked)
  have "fault ?db1 = None" "?e1 \<in> set (events ?db1)" "event_id ?e1 \<noteq> event_id d2"
    "slug ?e1 = slug d2"
    using ok d1 d2 ids by simp_all
  then have "write_event ?db1 d2 = (Inl (DuplicateKey ''slug'' (slug d2)), ?db1)"
    by (rule write_event_taken)
  with v2 h2 d2 same have c2: "Event_create rt ?db1 f2 =
      (Inl (DuplicateKey ''slug'' (Some (slug_of_title (unicode_lower rt) (trim t2)))), ?db1)"
    by (simp add: Event_create_hooked)
  have "slug ?e1 = ?k" "?e1 \<in> set (events ?db1)" using d1 by simp_all
  with c1 c2 show ?thesis by blast
qed

text \<open>
  C8. Two events with different ids whose fields are valid, whose dates and times pass
  the hook and whose titles have the same slug are created one after the other, in a
  database that works and holds no other event with that slug: the first creation
  succeeds and stores the event under that slug, and the second is refused with the
  duplicate-key error of the unique index on the slug, the database staying as the
  first creation left it.
\<close>

theorem unique_slug_second_create_fails:
  assumes "fields_valid f1" and "fields_valid f2"
    and "EventSchema_pre_save rt (Event_new rt f1) = Inr d1"
    and "EventSchema_pre_save rt (Event_new rt f2) = Inr d2"
    and "title f1 = Some t1" and "title f2 = Some t2"
    and "slug_of_title (unicode_lower rt) (trim t1) = slug_of_title (unicode_lower rt) (trim t2)"
    and "event_id f1 \<noteq> event_id f2"
    and "fault db = None"
    and "\<not> list_ex (\<lambda>e. event_id e \<noteq> event_id f1 \<and>
        slug e = Some (slug_of_title (unicode_lower rt) (trim t1))) (events db)"
  shows "\<exists>e1 db1. Event_create rt db f1 = (Inr e1, db1) \<and>
      slug e1 = Some (slug_of_title (unicode_lower rt) (trim t1)) \<and> e1 \<in> set (events db1) \<and>
      Event_create rt db1 f2 =
        (Inl (DuplicateKey ''slug'' (Some (slug_of_title (unicode_lower rt) (trim t2)))), db1)"
  using assms by (rule second_create_collides)

theorem unique_slug_second_create_fails_witness:
  "\<exists>e1 db1. Event_create plain_runtime empty_db talk = (Inr e1, db1) \<and>
      slug e1 = Some (js ''my-cool-talk'') \<and> e1 \<in> set (events db1) \<and>
      Event_create plain_runtime db1
        (talk\<lparr>event_id := ''64b7f0c2a1d3e4f5a6b7c8da'', title := Some (js '' my_cool - TALK? '')\<rparr>) =
        (Inl (DuplicateKey ''slug'' (Some (js ''my-cool-talk''))), db1)"
proof -
  let ?f2 = "talk\<lparr>event_id := ''64b7f0c2a1d3e4f5a6b7c8da'', title := Some (js '' my_cool - TALK? '')\<rparr>"
  have a: "fields_valid talk" "fields_valid ?f2"
    by code_simp+
  have b: "EventSchema_pre_save plain_runtime (Event_new plain_runtime talk) =
      Inr ((Event_new plain_runtime talk)\<lparr>slug := Some (js ''my-cool-talk'')\<rparr>)"
    by code_simp
  have c: "EventSchema_pre_save plain_runtime (Event_new plain_runtime ?f2) =
      Inr ((Event_new plain_runtime ?f2)\<lparr>slug := Some (js ''my-cool-talk'')\<rparr>)"
    by code_simp
  have d: "title talk = Some (js ''My Cool Talk!!'')" "title ?f2 = Some (js '' my_cool - TALK? '')"
    "event_id talk \<noteq> event_id ?f2" "fault empty_db = None"
    by code_simp+
  have e: "slug_of_title (unicode_lower plain_runtime) (trim (js ''My Cool Talk!!'')) = js ''my-cool-talk''"
    "slug_of_title (unicode_lower plain_runtime) (trim (js '' my_cool - TALK? '')) = js ''my-cool-talk''"
    by code_simp+
  have f: "\<not> list_ex (\<lambda>e. event_id e \<noteq> event_id talk \<and>
      slug e = Some (slug_of_title (unicode_lower plain_runtime) (trim (js ''My Cool Talk!!''))))
      (events empty_db)"
    by (simp add: empty_db_def)
  from unique_slug_second_create_fails [OF a b c d(1,2) _ d(3,4) f] e
  show ?thesis by simp
qed

section \<open>The reference of a booking to its event\<close>

lemma findById_absent:
  assumes "fault db = None" "list_all (\<lambda>e. Some (event_id e) \<noteq> i) (events db)"
  shows "findById db i = Resolved None"
proof (cases i)
  case None
  with assms show ?thesis by (simp add: findById_def)
next
  case (Some k)
  with assms have "find (\<lambda>e. event_id e = k) (events db) = None"
    by (auto simp: find_None_iff list_all_iff)
  with assms Some show ?thesis by (simp add: findById_def)
qed

lemma findById_present:
  assumes "findById db i = Resolved (Some e)"
  shows "e \<in> set (events db) \<and> Some (event_id e) = i \<and> fault db = None"
proof -
  from assms obtain k where "i = Some k" "find (\<lambda>x. event_id x = k) (events db) = Some e"
    "fault db = None"
    by (auto simp: findById_def split: option.splits)
  then show ?thesis by (auto simp: find_Some_iff)
qed

lemma findById_fault: "fault db = Some flt \<Longrightarrow> findById db i = Rejected flt"
  by (simp add: findById_def)

lemma pre_save_absent:
  assumes "booking_isModified b ''eventId''" "fault db = None"
    "list_all (\<lambda>e. Some (event_id e) \<noteq> eventId b) (events db)"
  shows "BookingSchema_pre_save db b =
    Inl (Error (''Event with ID '' @ id_text (eventId b) @ '' does not exist''))"
  using assms findById_absent [of db "eventId b"] by (simp add: BookingSchema_pre_save_def)

lemma pre_save_fault:
  assumes "booking_isModified b ''eventId''" "fault db = Some flt"
  shows "BookingSchema_pre_save db b =
    Inl (Error (case flt of FaultError message \<Rightarrow> ''Error validating event: '' @ message
                | FaultOther \<Rightarrow> ''Error validating event''))"
  using assms findById_fault [of db flt "eventId b"]
  by (cases flt) (simp_all add: BookingSchema_pre_save_def)

lemma pre_save_passes:
  assumes "BookingSchema_pre_save db b = Inr u" "booking_isModified b ''eventId''"
  shows "\<exists>e\<in>set (events db). Some (event_id e) = eventId b"
proof -
  from assms obtain e where "findById db (eventId b) = Resolved (Some e)"
    by (auto simp: BookingSchema_pre_save_def split: settled.splits option.splits fault.splits)
  then show ?thesis by (auto dest: findById_present)
qed

lemma Booking_save_cases:
  "(\<exists>e. Booking_save db b = (Inl e, db)) \<or>
   (\<exists>stored db'. Booking_save db b = (Inr stored, db') \<and> BookingSchema_validate b = [] \<and>
      BookingSchema_pre_save db b = Inr () \<and> fault db = None)"
  by (auto simp: Booking_save_def write_booking_def Let_def
      split: list.splits sum.splits option.splits)

lemma Booking_save_valid:
  "BookingSchema_validate b = [] \<Longrightarrow> BookingSchema_pre_save db b = Inl e \<Longrightarrow>
   Booking_save db b = (Inl e, db)"
  by (simp add: Booking_save_def)

lemma Booking_save_absent:
  assumes "booking_isModified b ''eventId''"
    "list_all (\<lambda>e. Some (event_id e) \<noteq> eventId b) (events db)"
  shows "\<exists>e. Booking_save db b = (Inl e, db)"
proof (rule ccontr)
  assume "\<not> (\<exists>e. Booking_save db b = (Inl e, db))"
  with Booking_save_cases [of db b] have "BookingSchema_pre_save db b = Inr ()"
    by auto
  with assms(1) have "\<exists>e\<in>set (events db). Some (event_id e) = eventId b"
    by (auto dest: pre_save_passes)
  with assms(2) show False by (auto simp: list_all_iff)
qed

lemma Booking_save_done:
  assumes "Booking_save db b = (Inr stored, db')" "booking_isModified b ''eventId''"
  shows "\<exists>e\<in>set (events db). Some (event_id e) = eventId b"
proof -
  from assms(1) Booking_save_cases [of db b] have "BookingSchema_pre_save db b = Inr ()"
    by auto
  with assms(2) show ?thesis by (auto dest: pre_save_passes)
qed

lemma Booking_new_modified:
  "eventId f \<noteq> None \<Longrightarrow>
   booking_isModified (Booking_new rt f) ''eventId'' \<and> eventId (Booking_new rt f) = eventId f"
  by (auto simp: Booking_new_def booking_isModified_def)

lemma Booking_new_no_event:
  "eventId f = None \<Longrightarrow> BookingSchema_validate (Booking_new rt f) \<noteq> []"
  by (simp add: Booking_new_def BookingSchema_validate_def)

lemma Booking_create_absent:
  assumes "list_all (\<lambda>e. Some (event_id e) \<noteq> eventId f) (events db)"
  shows "\<exists>e. Booking_create rt db f = (Inl e, db)"
proof (cases "eventId f")
  case None
  then have "BookingSchema_validate (Booking_new rt f) \<noteq> []"
    by (rule Booking_new_no_event)
  then show ?thesis
    by (cases "BookingSchema_validate (Booking_new rt f)")
       (simp_all add: Booking_create_def Booking_save_def)
next
  case (Some k)
  with assms Booking_new_modified [of f rt] show ?thesis
    by (simp add: Booking_create_def Booking_save_absent)
qed

lemma booking_examples:
  "Booking_create plain_runtime empty_db seat =
     (Inl (Error ''Event with ID 64b7f0c2a1d3e4f5a6b7c8d9 does not exist''), empty_db) \<and>
   Booking_create plain_runtime (empty_db\<lparr>events := [talk]\<rparr>) seat =
     (Inr (seat\<lparr>email := Some (js ''ada@example.org'')\<rparr>),
      empty_db\<lparr>events := [talk], bookings := [seat\<lparr>email := Some (js ''ada@example.org'')\<rparr>]\<rparr>)"
  by code_simp

text \<open>
  C1. A booking is saved with its \<open>eventId\<close> modified (as it is on every creation that
  names an event) while no event of the database has that id. Then the save fails and
  the database is left as it was; when the booking passes the validation and the
  storage answers, the error is the one of the hook, "Event with ID ... does not
  exist". A creation whose event is not there fails as well. And a save with a
  modified \<open>eventId\<close> that succeeds has found the event in the database.
\<close>

theorem booking_needs_event:
  "(booking_isModified b ''eventId'' \<and>
    list_all (\<lambda>e. Some (event_id e) \<noteq> eventId b) (events db) \<longrightarrow>
      (\<exists>e. Booking_save db b = (Inl e, db)) \<and>
      (BookingSchema_validate b = [] \<and> fault db = None \<longrightarrow>
         Booking_save db b =
           (Inl (Error (''Event with ID '' @ id_text (eventId b) @ '' does not exist'')), db))) \<and>
   (list_all (\<lambda>e. Some (event_id e) \<noteq> eventId f) (events db) \<longrightarrow>
      (\<exists>e. Booking_create rt db f = (Inl e, db))) \<and>
   (booking_isModified b ''eventId'' \<and> Booking_save db b = (Inr stored, db') \<longrightarrow>
      (\<exists>e\<in>set (events db). Some (event_id e) = eventId b))"
  using Booking_save_absent [of b db] pre_save_absent [of b db]
    Booking_save_valid [of b db] Booking_create_absent [of f db rt]
    Booking_save_done [of db b stored db']
  by blast

theorem booking_needs_event_witness:
  "booking_isModified (Booking_new plain_runtime seat) ''eventId'' \<and>
   list_all (\<lambda>e. Some (event_id e) \<noteq> eventId (Booking_new plain_runtime seat)) (events empty_db) \<and>
   BookingSchema_validate (Booking_new plain_runtime seat) = [] \<and> fault empty_db = None \<and>
   Booking_save empty_db (Booking_new plain_runtime seat) =
     (Inl (Error ''Event with ID 64b7f0c2a1d3e4f5a6b7c8d9 does not exist''), empty_db) \<and>
   Booking_save (empty_db\<lparr>events := [talk]\<rparr>) (Booking_new plain_runtime seat) =
     (Inr (seat\<lparr>email := Some (js ''ada@example.org'')\<rparr>),
      empty_db\<lparr>events := [talk], bookings := [seat\<lparr>email := Some (js ''ada@example.org'')\<rparr>]\<rparr>) \<and>
   (\<exists>e\<in>set (events (empty_db\<lparr>events := [talk]\<rparr>)).
      Some (event_id e) = eventId (Booking_new plain_runtime seat))"
proof -
  have a: "booking_isModified (Booking_new plain_runtime seat) ''eventId'' \<and>
      list_all (\<lambda>e. Some (event_id e) \<noteq> eventId (Booking_new plain_runtime seat)) (events empty_db) \<and>
      BookingSchema_validate (Booking_new plain_runtime seat) = [] \<and> fault empty_db = None"
    by code_simp
  have i: "id_text (eventId (Booking_new plain_runtime seat)) = ''64b7f0c2a1d3e4f5a6b7c8d9''"
    by code_simp
  have b: "Booking_save (empty_db\<lparr>events := [talk]\<rparr>) (Booking_new plain_runtime seat) =
      (Inr (seat\<lparr>email := Some (js ''ada@example.org'')\<rparr>),
       empty_db\<lparr>events := [talk], bookings := [seat\<lparr>email := Some (js ''ada@example.org'')\<rparr>]\<rparr>)"
    by code_simp
  from a i b
    booking_needs_event [of "Booking_new plain_runtime seat" empty_db]
    booking_needs_event [of "Booking_new plain_runtime seat" "empty_db\<lparr>events := [talk]\<rparr>"
      _ _ "seat\<lparr>email := Some (js ''ada@example.org'')\<rparr>"
      "empty_db\<lparr>events := [talk], bookings := [seat\<lparr>email := Some (js ''ada@example.org'')\<rparr>]\<rparr>"]
  show ?thesis by simp
qed

text \<open>
  C6. A booking is saved with its \<open>eventId\<close> modified while the storage fails, so that
  the lookup of the event is rejected. Then the save fails and the database is left as
  it was; for a booking that passes the validation the error is the one the hook wraps
  around the fault: "Error validating event: " followed by the message of the fault, or
  "Error validating event" for a fault that is not an Error.
\<close>

theorem failed_lookup_blocks_booking:
  "booking_isModified b ''eventId'' \<and> fault db = Some flt \<longrightarrow>
     findById db (eventId b) = Rejected flt \<and>
     (\<exists>e. Booking_save db b = (Inl e, db)) \<and>
     (BookingSchema_validate b = [] \<longrightarrow>
        Booking_save db b =
          (Inl (Error (case flt of
                         FaultError message \<Rightarrow> ''Error validating event: '' @ message
                       | FaultOther \<Rightarrow> ''Error validating event'')), db))"
  using findById_fault [of db flt "eventId b"] pre_save_fault [of b db flt]
    Booking_save_valid [of b db] Booking_save_cases [of db b]
  by auto

theorem failed_lookup_blocks_booking_witness:
  "booking_isModified (Booking_new plain_runtime seat) ''eventId'' \<and>
   fault (empty_db\<lparr>events := [talk], fault := Some (FaultError ''connection timed out'')\<rparr>) =
     Some (FaultError ''connection timed out'') \<and>
   BookingSchema_validate (Booking_new plain_runtime seat) = [] \<and>
   Booking_save (empty_db\<lparr>events := [talk], fault := Some (FaultError ''connection timed out'')\<rparr>)
       (Booking_new plain_runtime seat) =
     (Inl (Error ''Error validating event: connection timed out''),
      empty_db\<lparr>events := [talk], fault := Some (FaultError ''connection timed out'')\<rparr>)"
proof -
  have a: "booking_isModified (Booking_new plain_runtime seat) ''eventId'' \<and>
      fault (empty_db\<lparr>events := [talk], fault := Some (FaultError ''connection timed out'')\<rparr>) =
        Some (FaultError ''connection timed out'') \<and>
      BookingSchema_validate (Booking_new plain_runtime seat) = []"
    by code_simp
  from a failed_lookup_blocks_booking [of "Booking_new plain_runtime seat"
      "empty_db\<lparr>events := [talk], fault := Some (FaultError ''connection timed out'')\<rparr>"
      "FaultError ''connection timed out''"]
  show ?thesis by simp
qed

section \<open>The connection cache\<close>

lemma step_Call_cached:
  "calls s c = None \<Longrightarrow> conn s = Some k \<Longrightarrow>
   step (Call c) s = Some (s\<lparr>calls := (calls s)(c \<mapsto> Returned k)\<rparr>)"
  by (simp add: step_def connectDB_enter_def)

lemma step_Call_joins:
  "calls s c = None \<Longrightarrow> conn s = None \<Longrightarrow> promise s = Some p \<Longrightarrow>
   step (Call c) s = Some (s\<lparr>calls := (calls s)(c \<mapsto> Awaiting p)\<rparr>)"
  by (simp add: step_def connectDB_enter_def)

lemma step_Call_fresh:
  "calls s c = None \<Longrightarrow> conn s = None \<Longrightarrow> promise s = None \<Longrightarrow>
   step (Call c) s =
     Some (s\<lparr>promise := Some (length (attempts s)), attempts := attempts s @ [Pending],
             calls := (calls s)(c \<mapsto> Awaiting (length (attempts s)))\<rparr>)"
  by (simp add: step_def connectDB_enter_def)


lemma step_Resume_fulfilled:
  "calls s c = Some (Awaiting p) \<Longrightarrow> p < length (attempts s) \<Longrightarrow> attempts s ! p = Fulfilled k \<Longrightarrow>
   step (Resume c) s = Some (s\<lparr>conn := Some k, calls := (calls s)(c \<mapsto> Returned k)\<rparr>)"
  by (simp add: step_def connectDB_resume_def)







text \<open>
  While no attempt has failed the slot is never emptied, so there is at most one
  attempt at all.
\<close>

lemma step_no_failure:
  assumes "step a s = Some s'" "\<forall>e. Failed e \<notin> set (attempts s')"
  shows "\<forall>e. Failed e \<notin> set (attempts s)"
proof (cases a)
  case (Call c)
  with assms show ?thesis
    by (auto simp: step_def connectDB_enter_def split: if_splits option.splits)
next
  case (Settle p outcome)
  show ?thesis
  proof (intro allI notI)
    fix e assume "Failed e \<in> set (attempts s)"
    then obtain i where i: "i < length (attempts s)" "attempts s ! i = Failed e"
      by (auto simp: in_set_conv_nth)
    from assms(1) Settle have p: "attempts s ! p = Pending" "s' = s\<lparr>attempts := (attempts s)[p := outcome]\<rparr>"
      by (auto simp: step_def split: if_splits)
    with i have "i \<noteq> p" by auto
    with i p have "attempts s' ! i = Failed e" "i < length (attempts s')" by simp_all
    then have "Failed e \<in> set (attempts s')" by (metis nth_mem)
    with assms(2) show False by simp
  qed
next
  case (Resume c)
  with assms show ?thesis
    by (auto simp: step_def connectDB_resume_def
        split: if_splits option.splits call_state.splits attempt_state.splits)
qed

lemma step_single:
  assumes "step a s = Some s'" "\<forall>e. Failed e \<notin> set (attempts s)"
    "length (attempts s) \<le> 1 \<and> (promise s = None \<longleftrightarrow> attempts s = [])"
  shows "length (attempts s') \<le> 1 \<and> (promise s' = None \<longleftrightarrow> attempts s' = [])"
proof (cases a)
  case (Call c)
  with assms show ?thesis
    by (auto simp: step_def connectDB_enter_def split: if_splits option.splits)
next
  case (Settle p outcome)
  with assms show ?thesis
    by (auto simp: step_def split: if_splits)
next
  case (Resume c)
  with assms(1) obtain p where p: "calls s c = Some (Awaiting p)" "p < length (attempts s)"
    "s' = connectDB_resume c (attempts s ! p) s"
    by (auto simp: step_def split: if_splits option.splits call_state.splits)
  show ?thesis
  proof (cases "attempts s ! p")
    case Pending
    with p assms show ?thesis by (simp add: connectDB_resume_def)
  next
    case (Fulfilled k)
    with p assms show ?thesis by (simp add: connectDB_resume_def)
  next
    case (Failed e)
    with p have "Failed e \<in> set (attempts s)" by (metis nth_mem)
    with assms(2) show ?thesis by simp
  qed
qed

lemma reachable_single:
  "reachable s \<Longrightarrow> \<forall>e. Failed e \<notin> set (attempts s) \<Longrightarrow>
   length (attempts s) \<le> 1 \<and> (promise s = None \<longleftrightarrow> attempts s = [])"
proof (induction rule: reachable.induct)
  case reachable_start
  then show ?case by (simp add: start_def)
next
  case (reachable_step s a s')
  from reachable_step(2,4) have n: "\<forall>e. Failed e \<notin> set (attempts s)"
    by (rule step_no_failure)
  then have "length (attempts s) \<le> 1 \<and> (promise s = None \<longleftrightarrow> attempts s = [])"
    by (rule reachable_step(3))
  with reachable_step(2) n show ?case by (rule step_single)
qed

lemma single_flight_without_failure:
  assumes "reachable s" "\<forall>e. Failed e \<notin> set (attempts s)"
  shows "in_flight s \<le> 1"
proof -
  have "in_flight s \<le> length (attempts s)" by (simp add: in_flight_def)
  with reachable_single [OF assms] show ?thesis by simp
qed

lemma two_first_calls:
  "a \<noteq> b \<Longrightarrow>
   run [Call a, Call b, Settle 0 (Fulfilled k), Resume a, Resume b] start =
     Some \<lparr> conn = Some k, promise = Some 0, attempts = [Fulfilled k],
            calls = (\<lambda>_. None)(a \<mapsto> Returned k, b \<mapsto> Returned k) \<rparr>"
  by (simp add: step_def connectDB_enter_def connectDB_resume_def start_def)

text \<open>
  C2 fails on a run in which an attempt has failed. Caller 0 makes attempt 0, which
  fails. Caller 1 enters before caller 0 has resumed, finds the failed attempt still in
  the slot and awaits it. Caller 0 resumes and empties the slot; caller 2 enters and
  makes attempt 1. Now caller 1 resumes: its \<^verbatim>\<open>catch\<close> block empties the slot, which
  holds attempt 1 by then. Caller 3 enters, finds no connection and an empty slot, and
  makes attempt 2 while attempt 1 is still pending: two attempts are in flight.

  The job queue of JavaScript allows this order. The continuation of caller 0 is queued
  when attempt 0 is rejected; caller 1 runs in a job that was queued before that and
  calls \<^verbatim>\<open>connectDB\<close> after the rejection, so its own continuation is queued behind
  the one of caller 0; caller 2 runs in a job queued between the two continuations;
  caller 3 runs in the rejection handler of caller 0, before attempt 1 is settled.
\<close>

theorem two_attempts_in_flight:
  "\<exists>s. run [Call 0, Settle 0 (Failed ''down''), Call 1, Resume 0, Call 2, Resume 1, Call 3] start =
         Some s \<and>
       conn s = None \<and> promise s = Some 2 \<and>
       attempts s = [Failed ''down'', Pending, Pending] \<and> in_flight s = 2 \<and>
       calls s 0 = Some (Threw ''down'') \<and> calls s 1 = Some (Threw ''down'') \<and>
       calls s 2 = Some (Awaiting 1) \<and> calls s 3 = Some (Awaiting 2)"
  by (simp add: step_def connectDB_enter_def connectDB_resume_def start_def in_flight_def)





end
